theory Spec2Isabelle
  imports Main
begin

section \<open>The multi-runner benchmark pipeline of ABE\<close>

text \<open>
  A shallow embedding of the benchmark pipeline (the TypeScript benchmark module): the
  runner registry,
  \<^verbatim>\<open>parseRunnerFilter\<close>, the stages \<^verbatim>\<open>compileApp\<close>, \<^verbatim>\<open>runApp\<close>, \<^verbatim>\<open>stopApp\<close>,
  \<^verbatim>\<open>analyzeApp\<close>, the executor \<^verbatim>\<open>runSingleRunner\<close> and the orchestrator
  \<^verbatim>\<open>runMultiRunnerBenchmark\<close>.

  The pipeline is asynchronous, effectful code. Everything outside the program (the
  code generators, npm, the dev server, the browser, the file system) is an explicit
  environment: a record that says, for each external call, how long it takes and
  whether it returns or throws. The program's own effects are recorded in a
  \<open>world\<close>: the clock read by \<^verbatim>\<open>Date.now()\<close> and the trace of external actions
  performed so far. A rejected promise or a thrown exception is the value \<open>Inl msg\<close>,
  where \<open>msg\<close> is the message the catch blocks read with
  \<^verbatim>\<open>error instanceof Error ? error.message : String(error)\<close>.
  Console output is not modelled.
\<close>

subsection \<open>JavaScript strings\<close>

text \<open>
  Strings are lists of 8-bit characters. \<open>is_space\<close> is the part of the regular
  expression class \<^verbatim>\<open>\s\<close> (and of \<^verbatim>\<open>trim\<close>) that lies in that range.
\<close>

definition is_space :: "char \<Rightarrow> bool" where
  "is_space c = (c \<in> set [CHR 0x09, CHR 0x0A, CHR 0x0B, CHR 0x0C, CHR 0x0D, CHR 0x20, CHR 0xA0])"

definition is_digit :: "char \<Rightarrow> bool" where
  "is_digit c = (c \<in> set ''0123456789'')"

definition to_lower :: "char \<Rightarrow> char" where
  "to_lower c =
     (case map_of (zip ''ABCDEFGHIJKLMNOPQRSTUVWXYZ'' ''abcdefghijklmnopqrstuvwxyz'') c of
        Some l \<Rightarrow> l
      | None \<Rightarrow> c)"

text \<open>\<^verbatim>\<open>s.trim()\<close>\<close>

definition trim :: "string \<Rightarrow> string" where
  "trim s = rev (dropWhile is_space (rev (dropWhile is_space s)))"

text \<open>\<^verbatim>\<open>s.split(sep)\<close> for a one-character separator: the empty string gives one empty piece.\<close>

fun split_on :: "char \<Rightarrow> string \<Rightarrow> string list" where
  "split_on sep [] = [[]]"
| "split_on sep (c # cs) =
     (if c = sep then [] # split_on sep cs
      else (case split_on sep cs of
              [] \<Rightarrow> [[c]]
            | w # ws \<Rightarrow> (c # w) # ws))"

text \<open>\<^verbatim>\<open>xs.join(sep)\<close>\<close>

fun join :: "string \<Rightarrow> string list \<Rightarrow> string" where
  "join sep [] = []"
| "join sep [x] = x"
| "join sep (x # y # ys) = x @ sep @ join sep (y # ys)"

text \<open>\<^verbatim>\<open>a || b\<close> on strings: the empty string (and \<^verbatim>\<open>undefined\<close>) is falsy.\<close>

definition or_str :: "string \<Rightarrow> string \<Rightarrow> string" where
  "or_str a b = (if a = [] then b else a)"

text \<open>\<^verbatim>\<open>s.includes(p)\<close>\<close>

fun str_includes :: "string \<Rightarrow> string \<Rightarrow> bool" where
  "str_includes [] p = (p = [])"
| "str_includes (c # cs) p = (take (length p) (c # cs) = p \<or> str_includes cs p)"

text \<open>Numbers inside template strings: \<^verbatim>\<open>`${n}`\<close>.\<close>

fun show_nat :: "nat \<Rightarrow> string" where
  "show_nat n =
     (if n < 10 then [''0123456789'' ! n]
      else show_nat (n div 10) @ [''0123456789'' ! (n mod 10)])"

declare show_nat.simps [simp del]

definition show_int :: "int \<Rightarrow> string" where
  "show_int i = (if i < 0 then CHR ''-'' # show_nat (nat (- i)) else show_nat (nat i))"

text \<open>
  \<^verbatim>\<open>path.basename(p)\<close> on POSIX paths: trailing slashes are dropped, then the part
  after the last slash is returned.
\<close>

definition basename :: "string \<Rightarrow> string" where
  "basename p =
     rev (takeWhile (\<lambda>c. c \<noteq> CHR ''/'') (dropWhile (\<lambda>c. c = CHR ''/'') (rev p)))"

subsection \<open>The world: clock and trace\<close>

datatype signal = SIGTERM | SIGKILL

datatype action =
    GenerateCode string string
  | AccessNodeModules string
  | NpmInstall string
  | NpmRunBuild string
  | SpawnDevServer string
  | AnalyzeCall "string option" string
  | CleanupCall string
  | WorkspaceDeleted string
  | CopyScreenshot string string
  | Mkdir
  | WriteMetadata

record world =
  clock :: nat
  trace :: "action list"

text \<open>An external action that takes \<open>dt\<close> milliseconds.\<close>

definition perform :: "action \<Rightarrow> nat \<Rightarrow> world \<Rightarrow> world" where
  "perform a dt w = w\<lparr>clock := clock w + dt, trace := trace w @ [a]\<rparr>"

subsection \<open>Child processes\<close>

text \<open>
  A \<^verbatim>\<open>ChildProcess\<close> handle of Node.js. \<open>cp_exited\<close>: the operating-system process has
  terminated. \<open>cp_killed\<close>: the property \<^verbatim>\<open>killed\<close>, which Node sets once
  \<^verbatim>\<open>kill()\<close> has successfully sent a signal; it does not say that the process has
  terminated. \<open>cp_kill_calls\<close>: every call of \<^verbatim>\<open>kill\<close>; \<open>cp_signals\<close>: the signals
  that were delivered. Sending a signal to a process that has exited fails, returns
  false and leaves \<^verbatim>\<open>killed\<close> as it was.
\<close>

record ChildProcess =
  cp_exited :: bool
  cp_killed :: bool
  cp_kill_calls :: "signal list"
  cp_signals :: "signal list"

definition spawn :: ChildProcess where
  "spawn = \<lparr>cp_exited = False, cp_killed = False, cp_kill_calls = [], cp_signals = []\<rparr>"

definition kill :: "signal \<Rightarrow> ChildProcess \<Rightarrow> ChildProcess" where
  "kill sig p =
     (if cp_exited p then p\<lparr>cp_kill_calls := cp_kill_calls p @ [sig]\<rparr>
      else p\<lparr>cp_killed := True,
             cp_kill_calls := cp_kill_calls p @ [sig],
             cp_signals := cp_signals p @ [sig]\<rparr>)"

subsection \<open>Stop stage: \<^verbatim>\<open>stopApp\<close>\<close>

text \<open>
  \<open>exit_after\<close> is the environment: the number of milliseconds between the delivery of
  the termination signal and the exit of the process, \<open>None\<close> when the process does
  not exit on that signal. The result is the process afterwards and the time after
  which the returned promise resolves. The 5000 ms timer is never cancelled; its
  callback runs at 5000 ms whether or not the exit event has resolved the promise.
\<close>

definition stopApp :: "nat option \<Rightarrow> ChildProcess option \<Rightarrow> ChildProcess option \<times> nat" where
  "stopApp exit_after childProcess =
     (case childProcess of
        None \<Rightarrow> (None, 0)
      | Some p \<Rightarrow>
          if cp_killed p then (Some p, 0)
          else
            let p1 = kill SIGTERM p;
                exit_at = (if cp_exited p1 then None else exit_after);
                in_time = (case exit_at of None \<Rightarrow> False | Some d \<Rightarrow> d < 5000);
                p2 = (if in_time then p1\<lparr>cp_exited := True\<rparr> else p1);
                p3 = (if \<not> cp_killed p2 then kill SIGKILL p2 else p2)
            in (Some p3, (case exit_at of None \<Rightarrow> 5000 | Some d \<Rightarrow> if d < 5000 then d else 5000)))"

subsection \<open>Serve stage: \<^verbatim>\<open>runApp\<close>\<close>

text \<open>
  \<^verbatim>\<open>text.replace(/\x1B\[[0-9;]*[mGKHF]/g, '')\<close>: every escape sequence is removed,
  scanning from the left. The classes \<^verbatim>\<open>[0-9;]\<close> and \<^verbatim>\<open>[mGKHF]\<close> are disjoint, so
  the greedy star never has to give a character back.
\<close>

fun ansi_tail :: "string \<Rightarrow> string option" where
  "ansi_tail [] = None"
| "ansi_tail (c # cs) =
     (if c \<in> set ''0123456789;'' then ansi_tail cs
      else if c \<in> set ''mGKHF'' then Some cs
      else None)"

text \<open>
  \<open>ansi_tail s\<close> is the text after an escape sequence whose two opening characters
  have been read, when there is one. In \<open>strip_from n s\<close> the next \<open>n\<close> characters of
  \<open>s\<close> belong to a sequence being removed.
\<close>

fun strip_from :: "nat \<Rightarrow> string \<Rightarrow> string" where
  "strip_from n [] = []"
| "strip_from (Suc n) (c # cs) = strip_from n cs"
| "strip_from 0 (c # cs) =
     (if c = CHR 0x1B then
        (case cs of
           [] \<Rightarrow> [c]
         | b # rest \<Rightarrow>
             if b = CHR ''['' then
               (case ansi_tail rest of
                  None \<Rightarrow> c # strip_from 0 cs
                | Some after \<Rightarrow> strip_from (length cs - length after) cs)
             else c # strip_from 0 cs)
      else c # strip_from 0 cs)"

definition stripAnsi :: "string \<Rightarrow> string" where
  "stripAnsi text = strip_from 0 text"

text \<open>
  \<^verbatim>\<open>cleanText.match(/Local:\s+(http:\/\/localhost:\d+)/i)\<close>: the first capture group
  of the leftmost match. \<open>match_here\<close> tries the expression at the start of the text.
  The flag \<^verbatim>\<open>i\<close> folds the case of ASCII letters only.
\<close>

definition istarts_with :: "string \<Rightarrow> string \<Rightarrow> bool" where
  "istarts_with p s = (map to_lower (take (length p) s) = p)"

definition match_here :: "string \<Rightarrow> string option" where
  "match_here s =
     (if istarts_with ''local:'' s then
        (let r = drop 6 s;
             r1 = dropWhile is_space r
         in if takeWhile is_space r \<noteq> [] \<and> istarts_with ''http://localhost:'' r1 then
              (let ds = takeWhile is_digit (drop 17 r1)
               in if ds \<noteq> [] then Some (take 17 r1 @ ds) else None)
            else None)
      else None)"

fun localMatch :: "string \<Rightarrow> string option" where
  "localMatch [] = None"
| "localMatch (c # cs) =
     (case match_here (c # cs) of
        Some url \<Rightarrow> Some url
      | None \<Rightarrow> localMatch cs)"

record RunResult =
  rr_success :: bool
  rr_serverUrl :: "string option"
  rr_process :: "ChildProcess option"
  rr_duration :: nat
  rr_output :: "string option"
  rr_error :: "string option"

text \<open>
  What the dev server does is a list of events in the order the event loop delivers
  them, each with the delay in milliseconds since the event before it (the first:
  since \<^verbatim>\<open>spawn\<close>).
\<close>

datatype child_event =
    StdoutData string
  | StderrData string
  | ErrorEvent string
  | ExitEvent "int option"

datatype timer = Armed | Cleared | Fired

datatype settle = Resolve RunResult | Reject string

text \<open>
  The closure of the promise executor: the variables \<^verbatim>\<open>output\<close> and \<^verbatim>\<open>resolved\<close>,
  the timer made by \<^verbatim>\<open>setTimeout\<close>, the child, and every call of \<^verbatim>\<open>resolve\<close> or
  \<^verbatim>\<open>reject\<close> so far with the time since \<^verbatim>\<open>startTime\<close> at which it was made.
\<close>

record serve_state =
  sv_output :: string
  sv_resolved :: bool
  sv_timer :: timer
  sv_child :: ChildProcess
  sv_calls :: "(nat \<times> settle) list"

text \<open>A promise is settled by the first call of \<^verbatim>\<open>resolve\<close> or \<^verbatim>\<open>reject\<close>; later calls do nothing.\<close>

definition promise :: "serve_state \<Rightarrow> (nat \<times> settle) option" where
  "promise s = (case sv_calls s of [] \<Rightarrow> None | c # _ \<Rightarrow> Some c)"

definition clearTimeout :: "serve_state \<Rightarrow> serve_state" where
  "clearTimeout s = (if sv_timer s = Armed then s\<lparr>sv_timer := Cleared\<rparr> else s)"

definition call_settle :: "nat \<Rightarrow> settle \<Rightarrow> serve_state \<Rightarrow> serve_state" where
  "call_settle t c s = s\<lparr>sv_calls := sv_calls s @ [(t, c)]\<rparr>"

definition show_code :: "int option \<Rightarrow> string" where
  "show_code code = (case code of None \<Rightarrow> ''null'' | Some n \<Rightarrow> show_int n)"

text \<open>The callback of \<^verbatim>\<open>setTimeout(..., 30000)\<close>.\<close>

definition on_timeout :: "serve_state \<Rightarrow> serve_state" where
  "on_timeout s =
     (if \<not> sv_resolved s then
        call_settle 30000 (Reject ''Server startup timeout (30s)'')
          (s\<lparr>sv_child := kill SIGTERM (sv_child s)\<rparr>)
      else s)"

text \<open>The handlers of the child's events; \<open>t\<close> is \<^verbatim>\<open>Date.now() - startTime\<close>.\<close>

definition on_stdout :: "nat \<Rightarrow> string \<Rightarrow> serve_state \<Rightarrow> serve_state" where
  "on_stdout t text s =
     (let s1 = s\<lparr>sv_output := sv_output s @ text\<rparr>
      in case localMatch (stripAnsi text) of
           None \<Rightarrow> s1
         | Some serverUrl \<Rightarrow>
             if \<not> sv_resolved s1 then
               call_settle t
                 (Resolve \<lparr>rr_success = True, rr_serverUrl = Some serverUrl,
                            rr_process = Some (sv_child s1), rr_duration = t,
                            rr_output = Some (take 1000 (sv_output s1)), rr_error = None\<rparr>)
                 (clearTimeout (s1\<lparr>sv_resolved := True\<rparr>))
             else s1)"

definition on_stderr :: "string \<Rightarrow> serve_state \<Rightarrow> serve_state" where
  "on_stderr text s = s\<lparr>sv_output := sv_output s @ text\<rparr>"

definition on_error :: "nat \<Rightarrow> string \<Rightarrow> serve_state \<Rightarrow> serve_state" where
  "on_error t msg s =
     (if \<not> sv_resolved s then
        call_settle t (Reject msg) (clearTimeout (s\<lparr>sv_resolved := True\<rparr>))
      else s)"

definition on_exit :: "nat \<Rightarrow> int option \<Rightarrow> serve_state \<Rightarrow> serve_state" where
  "on_exit t code s0 =
     (let s = s0\<lparr>sv_child := (sv_child s0)\<lparr>cp_exited := True\<rparr>\<rparr>
      in if \<not> sv_resolved s then
           call_settle t (Reject (''Server exited with code '' @ show_code code))
             (clearTimeout (s\<lparr>sv_resolved := True\<rparr>))
         else s)"

fun handle_event :: "nat \<Rightarrow> child_event \<Rightarrow> serve_state \<Rightarrow> serve_state" where
  "handle_event t (StdoutData text) s = on_stdout t text s"
| "handle_event t (StderrData text) s = on_stderr text s"
| "handle_event t (ErrorEvent msg) s = on_error t msg s"
| "handle_event t (ExitEvent code) s = on_exit t code s"

text \<open>The timer fires once, when it is still armed and 30000 ms have passed.\<close>

definition timer_due :: "serve_state \<Rightarrow> serve_state" where
  "timer_due s = (if sv_timer s = Armed then on_timeout (s\<lparr>sv_timer := Fired\<rparr>) else s)"

text \<open>
  The event loop: \<open>t\<close> is the time since \<^verbatim>\<open>startTime\<close>. A due timer runs before an
  event that arrives at 30000 ms or later; with no event left, an armed timer fires.
\<close>

fun deliver :: "nat \<Rightarrow> (nat \<times> child_event) list \<Rightarrow> serve_state \<Rightarrow> serve_state" where
  "deliver t [] s = timer_due s"
| "deliver t ((d, e) # es) s =
     deliver (t + d) es (handle_event (t + d) e (if 30000 \<le> t + d then timer_due s else s))"

definition serve_init :: serve_state where
  "serve_init = \<lparr>sv_output = [], sv_resolved = False, sv_timer = Armed,
                 sv_child = spawn, sv_calls = []\<rparr>"

definition runApp_state :: "(nat \<times> child_event) list \<Rightarrow> serve_state" where
  "runApp_state events = deliver 0 events serve_init"

text \<open>
  \<^verbatim>\<open>runApp\<close>: the awaiting caller resumes when the promise settles. The process handle
  of a resolved result is a reference to the child, whose state is the one the
  delivered events have left. The promise is never left pending
  (\<open>runApp_state_settles\<close> below), so the last case does not occur.
\<close>

definition runApp :: "string \<Rightarrow> (nat \<times> child_event) list \<Rightarrow> world \<Rightarrow> (string + RunResult) \<times> world" where
  "runApp workspacePath events w =
     (let s = runApp_state events
      in case promise s of
           Some (t, Resolve r) \<Rightarrow>
             (Inr (r\<lparr>rr_process := Some (sv_child s)\<rparr>), perform (SpawnDevServer workspacePath) t w)
         | Some (t, Reject msg) \<Rightarrow> (Inl msg, perform (SpawnDevServer workspacePath) t w)
         | None \<Rightarrow> (Inl ''pending'', perform (SpawnDevServer workspacePath) 30000 w))"

subsection \<open>Compile stage: \<^verbatim>\<open>compileApp\<close>\<close>

text \<open>
  The outcome of a promisified \<^verbatim>\<open>exec\<close>: it resolves with the captured output, or
  rejects (non-zero exit code, or the process killed at the \<^verbatim>\<open>timeout\<close> option) with
  an error that carries a message and the output captured so far.
\<close>

record exec_error =
  ee_message :: string
  ee_stdout :: string
  ee_stderr :: string

datatype exec_outcome = ExecOk string string | ExecFail exec_error

text \<open>
  The environment of the stage: whether \<^verbatim>\<open>node_modules\<close> exists in the workspace, and
  the duration and outcome of \<^verbatim>\<open>npm install\<close> and of \<^verbatim>\<open>npm run build\<close>.
\<close>

record compile_env =
  ce_node_modules :: bool
  ce_install :: "nat \<times> exec_outcome"
  ce_build :: "nat \<times> exec_outcome"

record CompileResult =
  cr_success :: bool
  cr_duration :: nat
  cr_buildDuration :: "nat option"
  cr_installDuration :: "nat option"
  cr_installNeeded :: "bool option"
  cr_stdout :: "string option"
  cr_stderr :: "string option"
  cr_error :: "string option"

text \<open>The build step and the two returns that follow it.\<close>

definition compile_build :: "string \<Rightarrow> compile_env \<Rightarrow> nat \<Rightarrow> bool \<Rightarrow> world \<Rightarrow> CompileResult \<times> world" where
  "compile_build workspacePath env startTime installNeeded w =
     (let buildStart = clock w;
          w1 = perform (NpmRunBuild workspacePath) (fst (ce_build env)) w
      in case snd (ce_build env) of
           ExecOk stdout stderr \<Rightarrow>
             (\<lparr>cr_success = True, cr_duration = clock w1 - startTime,
               cr_buildDuration = Some (clock w1 - buildStart), cr_installDuration = None,
               cr_installNeeded = Some installNeeded,
               cr_stdout = Some (take 500 stdout), cr_stderr = Some (take 500 stderr),
               cr_error = None\<rparr>, w1)
         | ExecFail error \<Rightarrow>
             (\<lparr>cr_success = False, cr_duration = clock w1 - startTime,
               cr_buildDuration = None, cr_installDuration = None, cr_installNeeded = None,
               cr_stdout = Some (or_str (ee_stdout error) []),
               cr_stderr = Some (or_str (ee_stderr error) []),
               cr_error = Some (ee_message error)\<rparr>, w1))"

definition compileApp :: "string \<Rightarrow> compile_env \<Rightarrow> world \<Rightarrow> CompileResult \<times> world" where
  "compileApp workspacePath env w =
     (let startTime = clock w;
          w1 = perform (AccessNodeModules workspacePath) 0 w;
          installNeeded = (\<not> ce_node_modules env)
      in if installNeeded then
           (let installStart = clock w1;
                w2 = perform (NpmInstall workspacePath) (fst (ce_install env)) w1
            in case snd (ce_install env) of
                 ExecOk stdout stderr \<Rightarrow> compile_build workspacePath env startTime installNeeded w2
               | ExecFail installError \<Rightarrow>
                   (\<lparr>cr_success = False, cr_duration = clock w2 - startTime,
                     cr_buildDuration = None,
                     cr_installDuration = Some (clock w2 - installStart),
                     cr_installNeeded = None, cr_stdout = None,
                     cr_stderr = Some (or_str (ee_stderr installError) (ee_message installError)),
                     cr_error = Some ''npm install failed''\<rparr>, w2))
         else compile_build workspacePath env startTime installNeeded w1)"

subsection \<open>Analyze stage: \<^verbatim>\<open>analyzeApp\<close>\<close>

text \<open>
  The environment of the stage. \<open>ae_failure\<close>: the message of the first exception
  thrown inside the \<^verbatim>\<open>try\<close> block (launching the browser, opening the page,
  navigation, screenshot, title, metrics, closing the browser), \<open>None\<close> when every step
  succeeds. \<open>ae_browser\<close>: the browser had been launched when that exception was thrown.
  \<open>ae_close_failure\<close>: \<^verbatim>\<open>browser.close()\<close> inside the \<^verbatim>\<open>catch\<close> block throws.
  \<open>ae_elapsed\<close>: the time until the \<^verbatim>\<open>try\<close> block ends or throws, \<open>ae_close_elapsed\<close>:
  the time the close inside the \<^verbatim>\<open>catch\<close> block takes. The console and page errors
  are those the listeners have collected by then. The metrics and the list of console
  messages of the result are left out.
\<close>

record analyze_env =
  ae_failure :: "string option"
  ae_browser :: bool
  ae_close_failure :: "string option"
  ae_elapsed :: nat
  ae_close_elapsed :: nat
  ae_navigationDuration :: nat
  ae_screenshot_at :: nat
  ae_title :: string
  ae_consoleErrors :: "string list"
  ae_pageErrors :: "string list"

record AnalyzeResult =
  ar_success :: bool
  ar_duration :: nat
  ar_navigationDuration :: "nat option"
  ar_screenshotPath :: "string option"
  ar_title :: "string option"
  ar_consoleErrors :: "string list option"
  ar_pageErrors :: "string list option"
  ar_hasErrors :: "bool option"
  ar_error :: "string option"

definition analyzeApp ::
  "string option \<Rightarrow> string \<Rightarrow> string \<Rightarrow> analyze_env \<Rightarrow> world \<Rightarrow> (string + AnalyzeResult) \<times> world" where
  "analyzeApp serverUrl testId resultsDir env w =
     (let startTime = clock w;
          w1 = perform (AnalyzeCall serverUrl testId) (ae_elapsed env) w
      in case ae_failure env of
           None \<Rightarrow>
             (Inr \<lparr>ar_success = True, ar_duration = clock w1 - startTime,
                   ar_navigationDuration = Some (ae_navigationDuration env),
                   ar_screenshotPath =
                     Some (resultsDir @ ''/screenshots/'' @ testId @ ''-''
                           @ show_nat (startTime + ae_screenshot_at env) @ ''.png''),
                   ar_title = Some (ae_title env),
                   ar_consoleErrors = Some (ae_consoleErrors env),
                   ar_pageErrors = Some (ae_pageErrors env),
                   ar_hasErrors = Some (length (ae_consoleErrors env) > 0 \<or> length (ae_pageErrors env) > 0),
                   ar_error = None\<rparr>, w1)
         | Some errorMessage \<Rightarrow>
             (let w2 = (if ae_browser env then w1\<lparr>clock := clock w1 + ae_close_elapsed env\<rparr> else w1)
              in case (if ae_browser env then ae_close_failure env else None) of
                   Some closeMessage \<Rightarrow> (Inl closeMessage, w2)
                 | None \<Rightarrow>
                     (Inr \<lparr>ar_success = False, ar_duration = clock w2 - startTime,
                           ar_navigationDuration = None, ar_screenshotPath = None,
                           ar_title = None,
                           ar_consoleErrors = Some (ae_consoleErrors env),
                           ar_pageErrors = Some (ae_pageErrors env),
                           ar_hasErrors = None,
                           ar_error = Some errorMessage\<rparr>, w2)))"

subsection \<open>The runner registry\<close>

text \<open>
  \<open>rc_hasCleanup\<close>: the optional member \<^verbatim>\<open>cleanupWorkspace\<close> is present. What
  \<^verbatim>\<open>runBenchmark\<close> and \<^verbatim>\<open>cleanupWorkspace\<close> do is part of the environment below.
\<close>

record RunnerConfig =
  rc_id :: string
  rc_name :: string
  rc_defaultModel :: string
  rc_hasCleanup :: bool

definition sigrid_config :: RunnerConfig where
  "sigrid_config = \<lparr>rc_id = ''sigrid'', rc_name = ''Sigrid (OpenAI)'',
                     rc_defaultModel = ''gpt-5'', rc_hasCleanup = True\<rparr>"

definition claude_config :: RunnerConfig where
  "claude_config = \<lparr>rc_id = ''claude'', rc_name = ''Claude Code CLI'',
                     rc_defaultModel = ''sonnet'', rc_hasCleanup = True\<rparr>"

definition RUNNERS :: "(string \<times> RunnerConfig) list" where
  "RUNNERS = [(''sigrid'', sigrid_config), (''claude'', claude_config)]"

text \<open>
  \<^verbatim>\<open>RUNNERS[runnerId]\<close> and \<^verbatim>\<open>Object.keys(RUNNERS)\<close>. The lookup is that of the
  object's own keys. JavaScript also finds the names inherited from
  \<^verbatim>\<open>Object.prototype\<close> (\<^verbatim>\<open>toString\<close>, \<^verbatim>\<open>constructor\<close>); they are not among
  \<^verbatim>\<open>Object.keys(RUNNERS)\<close>, so \<^verbatim>\<open>parseRunnerFilter\<close> rejects them and the executor is
  never called with one.
\<close>

definition getRunner :: "string \<Rightarrow> RunnerConfig option" where
  "getRunner runnerId = map_of RUNNERS runnerId"

definition getAvailableRunners :: "string list" where
  "getAvailableRunners = map fst RUNNERS"

definition parseRunnerFilter :: "string \<Rightarrow> string list \<Rightarrow> string + string list" where
  "parseRunnerFilter flt allRunners =
     (if flt = [] then Inr allRunners
      else
        (let requested = map trim (split_on CHR '','' flt);
             invalid = filter (\<lambda>r. r \<notin> set allRunners) requested
         in if length invalid > 0 then
              Inl (''Invalid runner(s): '' @ join '', '' invalid @ ''. ''
                   @ ''Available runners: '' @ join '', '' allRunners)
            else Inr requested))"

subsection \<open>Single-runner executor: \<^verbatim>\<open>runSingleRunner\<close>\<close>

text \<open>
  What a runner's \<^verbatim>\<open>runBenchmark\<close> returns, with the members the executor reads.
\<close>

record BuildResult =
  br_success :: bool
  br_duration :: nat

record BenchmarkResult =
  bm_workspaceDir :: string
  bm_build :: BuildResult

text \<open>
  The environment of one runner's execution: the duration and outcome of the code
  generation (it throws or returns), the environments of the stages, the reaction of
  the dev server to the termination signal, the duration and outcome of
  \<^verbatim>\<open>cleanupWorkspace\<close> (\<open>Some msg\<close>: it throws).
\<close>

record runner_env =
  re_generate :: "nat \<times> (string + BenchmarkResult)"
  re_compile :: compile_env
  re_serve :: "(nat \<times> child_event) list"
  re_analyze :: analyze_env
  re_exit_after :: "nat option"
  re_cleanup :: "nat \<times> string option"

record Durations =
  codeGeneration :: nat
  compilation :: nat
  serverStartup :: nat
  analysis :: nat

record ErrorCounts =
  consoleErrors :: nat
  pageErrors :: nat

record RunnerBenchmarkResult =
  runner :: string
  model :: string
  success :: bool
  totalDuration :: nat
  durations :: Durations
  errors :: ErrorCounts
  screenshotPath :: "string option"
  workspaceDir :: "string option"
  error :: "string option"

text \<open>\<^verbatim>\<open>xs?.length || 0\<close>\<close>

definition length_or_0 :: "'a list option \<Rightarrow> nat" where
  "length_or_0 xs = (case xs of None \<Rightarrow> 0 | Some l \<Rightarrow> length l)"

text \<open>\<^verbatim>\<open>path.join(__dirname, 'results')\<close>, for a fixed installation directory.\<close>

definition resultsDir :: string where
  "resultsDir = ''/abe/results''"

text \<open>
  The \<^verbatim>\<open>try\<close> block of the executor. The result is what the block returns (\<open>Inr\<close>) or
  the exception that leaves it (\<open>Inl\<close>), the variable \<^verbatim>\<open>serverProcess\<close> at that moment,
  and the world.
\<close>

definition runSingleRunner_try ::
  "RunnerConfig \<Rightarrow> string \<Rightarrow> string \<Rightarrow> bool \<Rightarrow> runner_env \<Rightarrow> nat \<Rightarrow> world
     \<Rightarrow> (string + RunnerBenchmarkResult) \<times> ChildProcess option \<times> world" where
  "runSingleRunner_try runnerConfig runnerId prompt keepWorkspaces env startTime w =
     (let mdl = rc_defaultModel runnerConfig;
          w1 = perform (GenerateCode runnerId mdl) (fst (re_generate env)) w
      in case snd (re_generate env) of
           Inl e \<Rightarrow> (Inl e, None, w1)
         | Inr buildResult \<Rightarrow>
      if \<not> br_success (bm_build buildResult) then
        (Inr \<lparr>runner = runnerId, model = mdl, success = False,
              totalDuration = clock w1 - startTime,
              durations = \<lparr>codeGeneration = br_duration (bm_build buildResult),
                           compilation = 0, serverStartup = 0, analysis = 0\<rparr>,
              errors = \<lparr>consoleErrors = 0, pageErrors = 0\<rparr>,
              screenshotPath = None, workspaceDir = None,
              error = Some ''Code generation failed''\<rparr>, None, w1)
      else
        (case compileApp (bm_workspaceDir buildResult) (re_compile env) w1 of
           (compileResult, w2) \<Rightarrow>
      if \<not> cr_success compileResult then
        (Inr \<lparr>runner = runnerId, model = mdl, success = False,
              totalDuration = clock w2 - startTime,
              durations = \<lparr>codeGeneration = br_duration (bm_build buildResult),
                           compilation = cr_duration compileResult,
                           serverStartup = 0, analysis = 0\<rparr>,
              errors = \<lparr>consoleErrors = 0, pageErrors = 0\<rparr>,
              screenshotPath = None, workspaceDir = Some (bm_workspaceDir buildResult),
              error = Some ''Compilation failed''\<rparr>, None, w2)
      else
        (case runApp (bm_workspaceDir buildResult) (re_serve env) w2 of
           (Inl e, w3) \<Rightarrow> (Inl e, None, w3)
         | (Inr runResult, w3) \<Rightarrow>
      (let serverProcess = rr_process runResult
       in
      if \<not> rr_success runResult then
        (Inr \<lparr>runner = runnerId, model = mdl, success = False,
              totalDuration = clock w3 - startTime,
              durations = \<lparr>codeGeneration = br_duration (bm_build buildResult),
                           compilation = cr_duration compileResult,
                           serverStartup = rr_duration runResult, analysis = 0\<rparr>,
              errors = \<lparr>consoleErrors = 0, pageErrors = 0\<rparr>,
              screenshotPath = None, workspaceDir = Some (bm_workspaceDir buildResult),
              error = Some ''Server startup failed''\<rparr>, serverProcess, w3)
      else
        (case analyzeApp (rr_serverUrl runResult) (runnerId @ ''-temp'') resultsDir
                (re_analyze env) w3 of
           (Inl e, w4) \<Rightarrow> (Inl e, serverProcess, w4)
         | (Inr analyzeResult, w4) \<Rightarrow>
      (case stopApp (re_exit_after env) serverProcess of
         (stopped, dt) \<Rightarrow>
      (let w5 = w4\<lparr>clock := clock w4 + dt\<rparr>;
           totalDuration = clock w5 - startTime;
           result =
             \<lparr>runner = runnerId, model = mdl, success = True,
              totalDuration = totalDuration,
              durations = \<lparr>codeGeneration = br_duration (bm_build buildResult),
                           compilation = cr_duration compileResult,
                           serverStartup = rr_duration runResult,
                           analysis = ar_duration analyzeResult\<rparr>,
              errors = \<lparr>consoleErrors = length_or_0 (ar_consoleErrors analyzeResult),
                        pageErrors = length_or_0 (ar_pageErrors analyzeResult)\<rparr>,
              screenshotPath = ar_screenshotPath analyzeResult,
              workspaceDir = Some (bm_workspaceDir buildResult),
              error = None\<rparr>
       in
      if \<not> keepWorkspaces \<and> rc_hasCleanup runnerConfig \<and> bm_workspaceDir buildResult \<noteq> [] then
        (let w6 = perform (CleanupCall (bm_workspaceDir buildResult)) (fst (re_cleanup env)) w5
         in case snd (re_cleanup env) of
              Some e \<Rightarrow> (Inl e, stopped, w6)
            | None \<Rightarrow>
                (Inr result, stopped,
                 perform (WorkspaceDeleted (bm_workspaceDir buildResult)) 0 w6))
      else (Inr result, stopped, w5))))))))"

text \<open>
  The executor: the \<^verbatim>\<open>try\<close> block, and the \<^verbatim>\<open>catch\<close> block for an exception that
  leaves it. \<^verbatim>\<open>RUNNERS[runnerId]\<close> is read before the \<^verbatim>\<open>try\<close>: for an id that is not
  registered, reading \<^verbatim>\<open>defaultModel\<close> throws out of the executor.
\<close>

definition runSingleRunner ::
  "string \<Rightarrow> string \<Rightarrow> bool \<Rightarrow> runner_env \<Rightarrow> world \<Rightarrow> (string + RunnerBenchmarkResult) \<times> world" where
  "runSingleRunner runnerId prompt keepWorkspaces env w =
     (case getRunner runnerId of
        None \<Rightarrow> (Inl ''Cannot read properties of undefined (reading 'defaultModel')'', w)
      | Some runnerConfig \<Rightarrow>
          (let startTime = clock w
           in case runSingleRunner_try runnerConfig runnerId prompt keepWorkspaces env startTime w of
                (Inr result, serverProcess, w1) \<Rightarrow> (Inr result, w1)
              | (Inl e, serverProcess, w1) \<Rightarrow>
                  (let w2 = w1\<lparr>clock := clock w1 + snd (stopApp (re_exit_after env) serverProcess)\<rparr>
                   in (Inr \<lparr>runner = runnerId, model = rc_defaultModel runnerConfig,
                             success = False, totalDuration = clock w2 - startTime,
                             durations = \<lparr>codeGeneration = 0, compilation = 0,
                                          serverStartup = 0, analysis = 0\<rparr>,
                             errors = \<lparr>consoleErrors = 0, pageErrors = 0\<rparr>,
                             screenshotPath = None, workspaceDir = None,
                             error = Some e\<rparr>, w2))))"

subsection \<open>Multi-runner orchestrator: \<^verbatim>\<open>runMultiRunnerBenchmark\<close>\<close>

record Summary =
  totalRunners :: nat
  successfulRunners :: nat
  failedRunners :: nat
  fastestRunner :: "string option"
  fastestTime :: "nat option"

record BenchmarkMetadata =
  appName :: string
  timestamp :: string
  dateStr :: string
  prompt :: string
  runners :: "RunnerBenchmarkResult list"
  summary :: Summary

text \<open>
  The environment of an invocation: the time stamp and the directory name derived from
  it, the outcome of creating the benchmark directory and of writing the metadata
  file, and the environment of the runner executed at each position.
\<close>

record bench_env =
  be_timestamp :: string
  be_dateStr :: string
  be_mkdir_failure :: "string option"
  be_write_failure :: "string option"
  be_runner :: "nat \<Rightarrow> runner_env"

text \<open>The options object: \<^verbatim>\<open>filter\<close> and \<^verbatim>\<open>keepWorkspaces\<close> are optional.\<close>

record Options =
  opt_filter :: "string option"
  opt_keepWorkspaces :: "bool option"

type_synonym executor =
  "string \<Rightarrow> string \<Rightarrow> bool \<Rightarrow> runner_env \<Rightarrow> world \<Rightarrow> (string + RunnerBenchmarkResult) \<times> world"

text \<open>The result pushed in the \<^verbatim>\<open>catch\<close> block of the loop.\<close>

definition synthetic_result :: "string \<Rightarrow> RunnerConfig \<Rightarrow> string \<Rightarrow> RunnerBenchmarkResult" where
  "synthetic_result runnerId runnerConfig msg =
     \<lparr>runner = runnerId, model = rc_defaultModel runnerConfig, success = False,
      totalDuration = 0,
      durations = \<lparr>codeGeneration = 0, compilation = 0, serverStartup = 0, analysis = 0\<rparr>,
      errors = \<lparr>consoleErrors = 0, pageErrors = 0\<rparr>,
      screenshotPath = None, workspaceDir = None, error = Some msg\<rparr>"

text \<open>
  The screenshot is copied for a successful result with a non-empty path. A failing
  copy is caught inside the loop and only prints a warning, so its outcome is not part
  of the environment.
\<close>

definition copy_step :: "string \<Rightarrow> RunnerBenchmarkResult \<Rightarrow> world \<Rightarrow> world" where
  "copy_step runnerId result w =
     (case screenshotPath result of
        None \<Rightarrow> w
      | Some p \<Rightarrow> if success result \<and> p \<noteq> [] then perform (CopyScreenshot p runnerId) 0 w else w)"

text \<open>
  The body of the loop for one runner: the result it pushes, or the exception that
  leaves the loop. \<^verbatim>\<open>RUNNERS[runnerId].name\<close> is read outside the \<^verbatim>\<open>try\<close>.
\<close>

definition run_one ::
  "executor \<Rightarrow> string \<Rightarrow> bool \<Rightarrow> runner_env \<Rightarrow> string \<Rightarrow> world
     \<Rightarrow> string + RunnerBenchmarkResult \<times> world" where
  "run_one exec prmpt keepWorkspaces env runnerId w =
     (case getRunner runnerId of
        None \<Rightarrow> Inl ''Cannot read properties of undefined (reading 'name')''
      | Some runnerConfig \<Rightarrow>
          (case exec runnerId prmpt keepWorkspaces env w of
             (Inr result, w1) \<Rightarrow> Inr (result, copy_step runnerId result w1)
           | (Inl msg, w1) \<Rightarrow> Inr (synthetic_result runnerId runnerConfig msg, w1)))"

text \<open>
  The loop \<^verbatim>\<open>for (let i = 0; i < runnersToRun.length; i++)\<close>: \<open>i\<close> is the position of
  the head of the remaining list, \<open>results\<close> the array built so far.
\<close>

fun run_loop ::
  "executor \<Rightarrow> string \<Rightarrow> bool \<Rightarrow> (nat \<Rightarrow> runner_env) \<Rightarrow> nat \<Rightarrow> string list
     \<Rightarrow> RunnerBenchmarkResult list \<Rightarrow> world \<Rightarrow> string + RunnerBenchmarkResult list \<times> world" where
  "run_loop exec prmpt keepWorkspaces envs i [] results w = Inr (results, w)"
| "run_loop exec prmpt keepWorkspaces envs i (runnerId # rest) results w =
     (case run_one exec prmpt keepWorkspaces (envs i) runnerId w of
        Inl e \<Rightarrow> Inl e
      | Inr (result, w1) \<Rightarrow>
          run_loop exec prmpt keepWorkspaces envs (Suc i) rest (results @ [result]) w1)"

text \<open>
  \<^verbatim>\<open>successfulRunners.reduce((min, r) => r.totalDuration < min.totalDuration ? r : min)\<close>
  on a non-empty array: the first element is the initial value.
\<close>

definition fastest :: "RunnerBenchmarkResult list \<Rightarrow> RunnerBenchmarkResult option" where
  "fastest successful =
     (case successful of
        [] \<Rightarrow> None
      | r0 # rs \<Rightarrow>
          Some (foldl (\<lambda>mn r. if totalDuration r < totalDuration mn then r else mn) r0 rs))"

definition make_summary :: "RunnerBenchmarkResult list \<Rightarrow> Summary" where
  "make_summary results =
     (let successful = filter (\<lambda>r. success r) results;
          failed = filter (\<lambda>r. \<not> success r) results
      in \<lparr>totalRunners = length results,
          successfulRunners = length successful,
          failedRunners = length failed,
          fastestRunner = (if length successful > 0 then map_option runner (fastest successful) else None),
          fastestTime = (if length successful > 0 then map_option totalDuration (fastest successful) else None)\<rparr>)"

text \<open>The \<^verbatim>\<open>runners\<close> member of the metadata: each result with its screenshot path cut to the file name.\<close>

definition publish :: "RunnerBenchmarkResult \<Rightarrow> RunnerBenchmarkResult" where
  "publish r =
     r\<lparr>screenshotPath :=
         (case screenshotPath r of
            None \<Rightarrow> None
          | Some p \<Rightarrow> if p \<noteq> [] then Some (basename p) else None)\<rparr>"

text \<open>
  The orchestrator over an arbitrary executor; \<^verbatim>\<open>runMultiRunnerBenchmark\<close> is the
  instance with \<open>runSingleRunner\<close>.
\<close>

definition runMultiRunnerBenchmarkWith ::
  "executor \<Rightarrow> string \<Rightarrow> string \<Rightarrow> Options \<Rightarrow> bench_env \<Rightarrow> world
     \<Rightarrow> string + BenchmarkMetadata \<times> world" where
  "runMultiRunnerBenchmarkWith exec app prmpt options env w =
     (let flt = (case opt_filter options of None \<Rightarrow> [] | Some f \<Rightarrow> f);
          keepWorkspaces = (case opt_keepWorkspaces options of None \<Rightarrow> False | Some k \<Rightarrow> k);
          allRunners = getAvailableRunners
      in case parseRunnerFilter flt allRunners of
           Inl e \<Rightarrow> Inl e
         | Inr runnersToRun \<Rightarrow>
             (case be_mkdir_failure env of
                Some e \<Rightarrow> Inl e
              | None \<Rightarrow>
                  (case run_loop exec prmpt keepWorkspaces (be_runner env) 0 runnersToRun []
                          (perform Mkdir 0 w) of
                     Inl e \<Rightarrow> Inl e
                   | Inr (results, w1) \<Rightarrow>
                       (let metadata =
                              \<lparr>appName = app, timestamp = be_timestamp env,
                               dateStr = be_dateStr env, prompt = prmpt,
                               runners = map publish results,
                               summary = make_summary results\<rparr>
                        in case be_write_failure env of
                             Some e \<Rightarrow> Inl e
                           | None \<Rightarrow> Inr (metadata, perform WriteMetadata 0 w1)))))"

definition runMultiRunnerBenchmark ::
  "string \<Rightarrow> string \<Rightarrow> Options \<Rightarrow> bench_env \<Rightarrow> world \<Rightarrow> string + BenchmarkMetadata \<times> world" where
  "runMultiRunnerBenchmark = runMultiRunnerBenchmarkWith runSingleRunner"

subsection \<open>Predicates used in the statements\<close>

text \<open>Kinds of actions in a trace.\<close>

fun is_analyze :: "action \<Rightarrow> bool" where
  "is_analyze (AnalyzeCall url testId) = True"
| "is_analyze a = False"

fun is_cleanup :: "action \<Rightarrow> bool" where
  "is_cleanup (CleanupCall dir) = True"
| "is_cleanup a = False"

fun is_deleted :: "action \<Rightarrow> bool" where
  "is_deleted (WorkspaceDeleted dir) = True"
| "is_deleted a = False"

fun is_build :: "action \<Rightarrow> bool" where
  "is_build (NpmRunBuild dir) = True"
| "is_build a = False"

text \<open>An \<^verbatim>\<open>exec\<close> that resolves; a compile environment in which every command run resolves.\<close>

definition exec_ok :: "exec_outcome \<Rightarrow> bool" where
  "exec_ok out = (case out of ExecOk stdout stderr \<Rightarrow> True | ExecFail e \<Rightarrow> False)"

definition compile_succeeds :: "compile_env \<Rightarrow> bool" where
  "compile_succeeds ce =
     ((ce_node_modules ce \<or> exec_ok (snd (ce_install ce))) \<and> exec_ok (snd (ce_build ce)))"

text \<open>
  Serve-stage event lists, from time \<open>t\<close> on. \<open>pattern_absent\<close>: no chunk of standard
  output that arrives before 30000 ms matches the ready pattern. \<open>alive_until_timeout\<close>:
  no exit and no error event arrives before 30000 ms.
\<close>

fun pattern_absent :: "nat \<Rightarrow> (nat \<times> child_event) list \<Rightarrow> bool" where
  "pattern_absent t [] = True"
| "pattern_absent t ((d, e) # es) =
     (if 30000 \<le> t + d then True
      else (case e of StdoutData text \<Rightarrow> localMatch (stripAnsi text) = None | _ \<Rightarrow> True)
           \<and> pattern_absent (t + d) es)"

fun alive_until_timeout :: "nat \<Rightarrow> (nat \<times> child_event) list \<Rightarrow> bool" where
  "alive_until_timeout t [] = True"
| "alive_until_timeout t ((d, e) # es) =
     (if 30000 \<le> t + d then True
      else (case e of ErrorEvent msg \<Rightarrow> False | ExitEvent code \<Rightarrow> False | _ \<Rightarrow> True)
           \<and> alive_until_timeout (t + d) es)"

text \<open>
  The invariant of the serve stage's closure: a call of \<^verbatim>\<open>resolve\<close> or \<^verbatim>\<open>reject\<close> has
  been made, or the timer is armed and \<^verbatim>\<open>resolved\<close> is false.
\<close>

definition settled_or_armed :: "serve_state \<Rightarrow> bool" where
  "settled_or_armed s = ((sv_timer s = Armed \<and> \<not> sv_resolved s) \<or> sv_calls s \<noteq> [])"

text \<open>The closure before any call: nothing settled, timer armed, child untouched.\<close>

definition waiting :: "serve_state \<Rightarrow> bool" where
  "waiting s =
     (sv_calls s = [] \<and> sv_timer s = Armed \<and> \<not> sv_resolved s \<and> \<not> cp_exited (sv_child s)
      \<and> \<not> cp_killed (sv_child s) \<and> cp_kill_calls (sv_child s) = [] \<and> cp_signals (sv_child s) = [])"

subsection \<open>Example environments\<close>

text \<open>
  A run in which every stage succeeds: generation takes a minute, the dependencies are
  already installed, the build takes 8 s, the dev server prints its local URL after
  700 ms, the analysis takes 2.5 s, the server exits 40 ms after the termination
  signal, and the workspace is deleted in 30 ms.
\<close>

definition w_start :: world where
  "w_start = \<lparr>clock = 0, trace = []\<rparr>"

definition env_ok :: runner_env where
  "env_ok =
     \<lparr>re_generate = (60000, Inr \<lparr>bm_workspaceDir = ''/tmp/ws'',
                                  bm_build = \<lparr>br_success = True, br_duration = 59000\<rparr>\<rparr>),
      re_compile = \<lparr>ce_node_modules = True, ce_install = (0, ExecOk [] []),
                    ce_build = (8000, ExecOk ''built'' [])\<rparr>,
      re_serve = [(700, StdoutData ''  Local:   http://localhost:5173/'')],
      re_analyze = \<lparr>ae_failure = None, ae_browser = True, ae_close_failure = None,
                    ae_elapsed = 2500, ae_close_elapsed = 0, ae_navigationDuration = 900,
                    ae_screenshot_at = 2000, ae_title = ''Todo'',
                    ae_consoleErrors = [], ae_pageErrors = []\<rparr>,
      re_exit_after = Some 40,
      re_cleanup = (30, None)\<rparr>"

text \<open>The same run with a faster generation (51 s instead of 60 s).\<close>

definition env_fast :: runner_env where
  "env_fast =
     env_ok\<lparr>re_generate := (51000, Inr \<lparr>bm_workspaceDir = ''/tmp/ws2'',
                                         bm_build = \<lparr>br_success = True, br_duration = 50000\<rparr>\<rparr>)\<rparr>"

text \<open>An \<^verbatim>\<open>npm install\<close> that fails after 4 s with 501 characters on standard error.\<close>

definition install_fails :: compile_env where
  "install_fails =
     \<lparr>ce_node_modules = False,
      ce_install = (4000, ExecFail \<lparr>ee_message = ''Command failed: npm install'',
                                    ee_stdout = [], ee_stderr = replicate 501 (CHR ''E'')\<rparr>),
      ce_build = (8000, ExecOk ''built'' [])\<rparr>"

text \<open>A build that fails after 8 s, with the dependencies already installed.\<close>

definition build_fails :: compile_env where
  "build_fails =
     \<lparr>ce_node_modules = True, ce_install = (0, ExecOk [] []),
      ce_build = (8000, ExecFail \<lparr>ee_message = ''Command failed: npm run build'',
                                  ee_stdout = [], ee_stderr = ''error TS2304''\<rparr>)\<rparr>"

text \<open>
  An analysis whose navigation fails after 30 s and whose browser then fails to close
  inside the \<^verbatim>\<open>catch\<close> block.
\<close>

definition analyze_throws :: analyze_env where
  "analyze_throws =
     \<lparr>ae_failure = Some ''page.goto: Timeout 30000ms exceeded'', ae_browser = True,
      ae_close_failure = Some ''browser.close: Target closed'',
      ae_elapsed = 30000, ae_close_elapsed = 10, ae_navigationDuration = 0,
      ae_screenshot_at = 0, ae_title = [], ae_consoleErrors = [], ae_pageErrors = []\<rparr>"

text \<open>
  The dev server prints a banner after 1 s and its local URL only after 32 s.
\<close>

definition env_slow :: runner_env where
  "env_slow =
     env_ok\<lparr>re_serve := [(1000, StdoutData ''VITE v5.0.0 starting''),
                         (31000, StdoutData ''  Local:   http://localhost:5173/'')]\<rparr>"

text \<open>
  The analysis returns a result instead of throwing: nothing fails, or no browser had
  been launched, or closing the browser inside the \<^verbatim>\<open>catch\<close> block succeeds.
\<close>

definition analyze_returns :: "analyze_env \<Rightarrow> bool" where
  "analyze_returns ae = (ae_failure ae = None \<or> ae_close_failure ae = None \<or> \<not> ae_browser ae)"

text \<open>An analysis whose navigation fails after 30 s; the browser is then closed.\<close>

definition analyze_fails :: analyze_env where
  "analyze_fails = analyze_throws\<lparr>ae_close_failure := None\<rparr>"

text \<open>Every call of \<^verbatim>\<open>resolve\<close> made so far carries \<^verbatim>\<open>success: true\<close>.\<close>

definition resolves_succeed :: "serve_state \<Rightarrow> bool" where
  "resolves_succeed s =
     list_all (\<lambda>c. case snd c of Resolve r \<Rightarrow> rr_success r | Reject msg \<Rightarrow> True) (sv_calls s)"

text \<open>The dev server exits with code 1 after 100 ms, before printing anything.\<close>

definition env_exits :: runner_env where
  "env_exits = env_ok\<lparr>re_serve := [(100, ExitEvent (Some 1))]\<rparr>"

text \<open>What the dev server of \<open>env_ok\<close> resolves the serve stage with.\<close>

definition ready_result :: RunResult where
  "ready_result =
     \<lparr>rr_success = True, rr_serverUrl = Some ''http://localhost:5173'',
      rr_process = Some spawn, rr_duration = 700,
      rr_output = Some ''  Local:   http://localhost:5173/'', rr_error = None\<rparr>"

text \<open>What the code generation of \<open>env_ok\<close> returns.\<close>

definition generated_ok :: BenchmarkResult where
  "generated_ok = \<lparr>bm_workspaceDir = ''/tmp/ws'',
                    bm_build = \<lparr>br_success = True, br_duration = 59000\<rparr>\<rparr>"

text \<open>The durations of a result of the \<^verbatim>\<open>catch\<close> blocks.\<close>

definition no_durations :: Durations where
  "no_durations = \<lparr>codeGeneration = 0, compilation = 0, serverStartup = 0, analysis = 0\<rparr>"

text \<open>
  An invocation with no filter: both registered runners run, the first in \<open>env_ok\<close>,
  the second in \<open>env_fast\<close>.
\<close>

definition bench_two :: bench_env where
  "bench_two =
     \<lparr>be_timestamp = ''2025-01-15T10:30:45.123Z'', be_dateStr = ''2025-01-15103045'',
      be_mkdir_failure = None, be_write_failure = None,
      be_runner = (\<lambda>i. if i = 0 then env_ok else env_fast)\<rparr>"

definition no_options :: Options where
  "no_options = \<lparr>opt_filter = None, opt_keepWorkspaces = None\<rparr>"

text \<open>An executor that throws for the runner \<^verbatim>\<open>sigrid\<close> and is \<open>runSingleRunner\<close> for every other.\<close>

definition exec_sigrid_throws :: executor where
  "exec_sigrid_throws runnerId prmpt keepWorkspaces env w =
     (if runnerId = ''sigrid'' then (Inl ''spawn ENOMEM'', w)
      else runSingleRunner runnerId prmpt keepWorkspaces env w)"

text \<open>
  \<open>res\<close> is what the loop pushes for the runner \<open>r\<close> in the environment \<open>env\<close>, in some
  world: the result the executor returns, or the synthetic failed result for the
  exception it throws.
\<close>

definition pushed ::
  "executor \<Rightarrow> string \<Rightarrow> bool \<Rightarrow> runner_env \<Rightarrow> string \<Rightarrow> RunnerBenchmarkResult \<Rightarrow> bool" where
  "pushed exec prmpt keepWorkspaces env r res =
     (\<exists>w. case exec r prmpt keepWorkspaces env w of
            (Inr result, w1) \<Rightarrow> res = result
          | (Inl msg, w1) \<Rightarrow> \<exists>cfg. getRunner r = Some cfg \<and> res = synthetic_result r cfg msg)"

section \<open>Properties\<close>

subsection \<open>Serve stage\<close>

text \<open>Handlers and the timer callback only ever add calls of \<^verbatim>\<open>resolve\<close> or \<^verbatim>\<open>reject\<close>.\<close>

lemma handle_event_calls_grow: "\<exists>cs. sv_calls (handle_event t e s) = sv_calls s @ cs"
  by (cases e)
     (auto simp: on_stdout_def on_stderr_def on_error_def on_exit_def call_settle_def
        clearTimeout_def Let_def split: option.splits)

lemma timer_due_calls_grow: "\<exists>cs. sv_calls (timer_due s) = sv_calls s @ cs"
  by (auto simp: timer_due_def on_timeout_def call_settle_def)

lemma deliver_calls_grow: "\<exists>cs. sv_calls (deliver t es s) = sv_calls s @ cs"
proof (induction es arbitrary: t s)
  case Nil
  then show ?case by (simp add: timer_due_calls_grow)
next
  case (Cons a es)
  obtain d e where a: "a = (d, e)" by (cases a)
  let ?s1 = "if 30000 \<le> t + d then timer_due s else s"
  have "\<exists>c1. sv_calls ?s1 = sv_calls s @ c1"
    using timer_due_calls_grow [of s] by (cases "30000 \<le> t + d") simp_all
  then obtain c1 where c1: "sv_calls ?s1 = sv_calls s @ c1" by blast
  obtain c2 where c2: "sv_calls (handle_event (t + d) e ?s1) = sv_calls ?s1 @ c2"
    using handle_event_calls_grow by blast
  obtain c3 where c3: "sv_calls (deliver (t + d) es (handle_event (t + d) e ?s1))
      = sv_calls (handle_event (t + d) e ?s1) @ c3"
    using Cons.IH by blast
  show ?case unfolding a using c1 c2 c3 by simp
qed

text \<open>Once the promise is settled, no later event or timer changes its outcome.\<close>

lemma deliver_keeps_promise:
  "promise s = Some c \<Longrightarrow> promise (deliver t es s) = Some c"
  using deliver_calls_grow [of t es s]
  by (auto simp: promise_def split: list.splits)

text \<open>The promise of \<^verbatim>\<open>runApp\<close> always settles: at the latest the timer rejects it.\<close>

lemma handle_event_inv: "settled_or_armed s \<Longrightarrow> settled_or_armed (handle_event t e s)"
  by (cases e)
     (auto simp: settled_or_armed_def on_stdout_def on_stderr_def on_error_def on_exit_def
        call_settle_def clearTimeout_def Let_def split: option.splits)

lemma timer_due_inv: "settled_or_armed s \<Longrightarrow> settled_or_armed (timer_due s)"
  by (auto simp: settled_or_armed_def timer_due_def on_timeout_def call_settle_def)

lemma timer_due_settled: "settled_or_armed s \<Longrightarrow> sv_calls (timer_due s) \<noteq> []"
  by (auto simp: settled_or_armed_def timer_due_def on_timeout_def call_settle_def)

lemma deliver_settles: "settled_or_armed s \<Longrightarrow> sv_calls (deliver t es s) \<noteq> []"
proof (induction es arbitrary: t s)
  case Nil
  then show ?case by (simp add: timer_due_settled)
next
  case (Cons a es)
  obtain d e where a: "a = (d, e)" by (cases a)
  have "settled_or_armed (handle_event (t + d) e (if 30000 \<le> t + d then timer_due s else s))"
    using Cons.prems by (simp add: handle_event_inv timer_due_inv)
  then show ?case unfolding a using Cons.IH by simp
qed

lemma runApp_state_settles: "promise (runApp_state events) \<noteq> None"
  using deliver_settles [of serve_init 0 events]
  by (simp add: runApp_state_def promise_def settled_or_armed_def serve_init_def split: list.splits)

text \<open>Only the timer callback signals the child.\<close>

lemma handle_event_child_kills:
  "cp_killed (sv_child (handle_event t e s)) = cp_killed (sv_child s) \<and>
   cp_kill_calls (sv_child (handle_event t e s)) = cp_kill_calls (sv_child s) \<and>
   cp_signals (sv_child (handle_event t e s)) = cp_signals (sv_child s)"
  by (cases e)
     (auto simp: on_stdout_def on_stderr_def on_error_def on_exit_def call_settle_def
        clearTimeout_def Let_def split: option.splits)

lemma handle_event_timer:
  "sv_timer s \<noteq> Armed \<Longrightarrow> sv_timer (handle_event t e s) = sv_timer s"
  by (cases e)
     (auto simp: on_stdout_def on_stderr_def on_error_def on_exit_def call_settle_def
        clearTimeout_def Let_def split: option.splits)

lemma deliver_fired_child_kills:
  "sv_timer s \<noteq> Armed \<Longrightarrow>
   cp_killed (sv_child (deliver t es s)) = cp_killed (sv_child s) \<and>
   cp_kill_calls (sv_child (deliver t es s)) = cp_kill_calls (sv_child s) \<and>
   cp_signals (sv_child (deliver t es s)) = cp_signals (sv_child s)"
proof (induction es arbitrary: t s)
  case Nil
  then show ?case by (simp add: timer_due_def)
next
  case (Cons a es)
  obtain d e where a: "a = (d, e)" by (cases a)
  have s1: "(if 30000 \<le> t + d then timer_due s else s) = s"
    using Cons.prems by (simp add: timer_due_def)
  have "sv_timer (handle_event (t + d) e s) \<noteq> Armed"
    using Cons.prems by (simp add: handle_event_timer)
  from Cons.IH [OF this] show ?case
    unfolding a by (simp add: s1 handle_event_child_kills)
qed

text \<open>The ready line of the example environments, and a line without the pattern.\<close>

lemmas matcher_defs =
  stripAnsi_def match_here_def istarts_with_def to_lower_def is_space_def is_digit_def

lemma localMatch_ready_line:
  "localMatch (stripAnsi ''  Local:   http://localhost:5173/'') = Some ''http://localhost:5173''"
  by (simp add: matcher_defs)

lemma localMatch_banner:
  "localMatch (stripAnsi ''VITE v5.0.0 starting'') = None"
  by (simp add: matcher_defs)

lemmas serve_defs =
  runApp_state_def serve_init_def timer_due_def on_timeout_def on_stdout_def on_stderr_def
  on_error_def on_exit_def call_settle_def clearTimeout_def spawn_def kill_def show_code_def
  show_int_def show_nat.simps promise_def

text \<open>
  Claim C6. Exactly one resolution path fires: \<^verbatim>\<open>resolve\<close> or \<^verbatim>\<open>reject\<close> is invoked at
  most once per execution of the serve stage. The code does not do this: the timer
  callback rejects without setting \<^verbatim>\<open>resolved\<close>, so when the timer fires and the
  killed server then exits, the exit handler finds \<^verbatim>\<open>resolved\<close> false and rejects a
  second time. The outcome of the promise stays the first rejection.
\<close>

theorem timeout_then_exit_rejects_twice:
  "sv_calls (runApp_state [(31000, ExitEvent None)]) =
     [(30000, Reject ''Server startup timeout (30s)''),
      (31000, Reject ''Server exited with code null'')]
   \<and> promise (runApp_state [(31000, ExitEvent None)]) =
       Some (30000, Reject ''Server startup timeout (30s)'')"
  by (simp add: serve_defs)

subsection \<open>Serve stage: the timeout\<close>

lemma timer_due_waiting:
  assumes "waiting s"
  shows "sv_calls (timer_due s) = [(30000, Reject ''Server startup timeout (30s)'')]
     \<and> sv_timer (timer_due s) \<noteq> Armed
     \<and> cp_killed (sv_child (timer_due s))
     \<and> cp_kill_calls (sv_child (timer_due s)) = [SIGTERM]
     \<and> cp_signals (sv_child (timer_due s)) = [SIGTERM]"
  using assms
  by (simp add: waiting_def timer_due_def on_timeout_def call_settle_def kill_def)

lemma handle_event_waiting:
  assumes "waiting s"
    and "(case e of StdoutData text \<Rightarrow> localMatch (stripAnsi text) = None | _ \<Rightarrow> True)"
    and "(case e of ErrorEvent msg \<Rightarrow> False | ExitEvent code \<Rightarrow> False | _ \<Rightarrow> True)"
  shows "waiting (handle_event t e s)"
  using assms
  by (cases e) (simp_all add: waiting_def on_stdout_def on_stderr_def)

lemma deliver_waiting_times_out:
  assumes "waiting s" and "pattern_absent t es" and "alive_until_timeout t es"
  shows "promise (deliver t es s) = Some (30000, Reject ''Server startup timeout (30s)'')
     \<and> cp_killed (sv_child (deliver t es s))
     \<and> cp_kill_calls (sv_child (deliver t es s)) = [SIGTERM]
     \<and> cp_signals (sv_child (deliver t es s)) = [SIGTERM]"
  using assms
proof (induction es arbitrary: t s)
  case Nil
  then show ?case by (simp add: timer_due_waiting promise_def)
next
  case (Cons a es)
  obtain d e where a: "a = (d, e)" by (cases a)
  show ?case
  proof (cases "30000 \<le> t + d")
    case True
    let ?s1 = "timer_due s"
    let ?s2 = "handle_event (t + d) e ?s1"
    have p1: "promise ?s1 = Some (30000, Reject ''Server startup timeout (30s)'')"
      using Cons.prems(1) by (simp add: timer_due_waiting promise_def)
    obtain cs where "sv_calls ?s2 = sv_calls ?s1 @ cs"
      using handle_event_calls_grow by blast
    then have p2: "promise ?s2 = Some (30000, Reject ''Server startup timeout (30s)'')"
      using p1 by (auto simp: promise_def split: list.splits)
    have t2: "sv_timer ?s2 \<noteq> Armed"
      using timer_due_waiting [OF Cons.prems(1)] by (simp add: handle_event_timer)
    have k2: "cp_killed (sv_child ?s2) \<and> cp_kill_calls (sv_child ?s2) = [SIGTERM]
        \<and> cp_signals (sv_child ?s2) = [SIGTERM]"
      using timer_due_waiting [OF Cons.prems(1)] by (simp add: handle_event_child_kills)
    show ?thesis
      unfolding a using True deliver_keeps_promise [OF p2] deliver_fired_child_kills [OF t2] k2
      by simp
  next
    case False
    have w1: "waiting (handle_event (t + d) e s)"
      using Cons.prems False unfolding a by (intro handle_event_waiting) simp_all
    have "pattern_absent (t + d) es" "alive_until_timeout (t + d) es"
      using Cons.prems False unfolding a by simp_all
    from Cons.IH [OF w1 this] show ?thesis
      unfolding a using False by simp
  qed
qed

lemma waiting_serve_init: "waiting serve_init"
  by (simp add: waiting_def serve_init_def spawn_def)

lemma runApp_times_out:
  assumes "pattern_absent 0 events" and "alive_until_timeout 0 events"
  shows "runApp d events w =
     (Inl ''Server startup timeout (30s)'', perform (SpawnDevServer d) 30000 w)"
  using deliver_waiting_times_out [OF waiting_serve_init assms]
  by (simp add: runApp_def runApp_state_def Let_def)

subsection \<open>Compile stage\<close>

lemma compileApp_success: "cr_success (fst (compileApp d ce w)) = compile_succeeds ce"
  by (auto simp: compileApp_def compile_build_def compile_succeeds_def exec_ok_def Let_def
      split: exec_outcome.splits)

lemma compileApp_trace_analyze:
  "filter is_analyze (trace (snd (compileApp d ce w))) = filter is_analyze (trace w)"
  by (auto simp: compileApp_def compile_build_def perform_def Let_def
      split: exec_outcome.splits)

lemma compileApp_trace_cleanup:
  "filter is_cleanup (trace (snd (compileApp d ce w))) = filter is_cleanup (trace w)"
  by (auto simp: compileApp_def compile_build_def perform_def Let_def
      split: exec_outcome.splits)

lemma compileApp_trace_deleted:
  "filter is_deleted (trace (snd (compileApp d ce w))) = filter is_deleted (trace w)"
  by (auto simp: compileApp_def compile_build_def perform_def Let_def
      split: exec_outcome.splits)

text \<open>
  A failing install step ends the stage: the result is a failure with the error
  \<^verbatim>\<open>npm install failed\<close>, and the build command is not run. The standard error of the
  result is that of the failed command as it is, or the message when it is empty.
\<close>

lemma compileApp_install_failure:
  assumes "\<not> ce_node_modules ce" and "snd (ce_install ce) = ExecFail e"
  shows "cr_success (fst (compileApp d ce w)) = False
     \<and> cr_error (fst (compileApp d ce w)) = Some ''npm install failed''
     \<and> cr_stderr (fst (compileApp d ce w)) = Some (or_str (ee_stderr e) (ee_message e))
     \<and> filter is_build (trace (snd (compileApp d ce w))) = filter is_build (trace w)"
  using assms by (simp add: compileApp_def perform_def Let_def)

text \<open>
  Claim C8. When the install step fails, the stage returns \<^verbatim>\<open>success == false\<close> with the
  error \<^verbatim>\<open>npm install failed\<close> and a stderr excerpt of at most 500 characters, and the
  build step is never run. The code returns the failure and skips the build, but it
  does not cut the standard error: only the successful return applies
  \<^verbatim>\<open>substring(0, 500)\<close>. Here the failed install wrote 501 characters, and the result
  carries all of them.
\<close>

theorem install_failure_stderr_untruncated:
  "cr_success (fst (compileApp ''/tmp/ws'' install_fails w_start)) = False
   \<and> cr_error (fst (compileApp ''/tmp/ws'' install_fails w_start)) = Some ''npm install failed''
   \<and> map_option length (cr_stderr (fst (compileApp ''/tmp/ws'' install_fails w_start))) = Some 501
   \<and> filter is_build (trace (snd (compileApp ''/tmp/ws'' install_fails w_start))) = []"
  by (simp add: compileApp_def install_fails_def w_start_def perform_def or_str_def)

subsection \<open>Stop stage\<close>

text \<open>
  Claim C7. On a live server process the stop stage sends a graceful termination
  signal first and, if the process has not exited within 5 seconds, a forceful
  \<^verbatim>\<open>SIGKILL\<close>. The code sends the first signal only: a delivered signal sets
  \<^verbatim>\<open>killed\<close>, so the guard \<^verbatim>\<open>!childProcess.killed\<close> of the 5-second timer is false
  whenever the process was alive, whether or not it has exited since. For every live,
  not yet signalled process and every reaction of the process, \<^verbatim>\<open>SIGTERM\<close> is the only
  call of \<^verbatim>\<open>kill\<close> that \<^verbatim>\<open>stopApp\<close> makes.
\<close>

theorem stopApp_live_sends_sigterm_only:
  assumes "\<not> cp_exited p" and "\<not> cp_killed p"
  shows "\<exists>q. fst (stopApp exit_after (Some p)) = Some q
     \<and> cp_kill_calls q = cp_kill_calls p @ [SIGTERM]
     \<and> cp_signals q = cp_signals p @ [SIGTERM]
     \<and> cp_exited q = (case exit_after of None \<Rightarrow> False | Some d \<Rightarrow> d < 5000)"
  using assms by (simp add: stopApp_def kill_def Let_def split: option.splits)

theorem stopApp_live_sends_sigterm_only_witness:
  "\<not> cp_exited spawn \<and> \<not> cp_killed spawn
   \<and> (\<exists>q. stopApp None (Some spawn) = (Some q, 5000) \<and> cp_kill_calls q = [SIGTERM]
        \<and> cp_signals q = [SIGTERM] \<and> \<not> cp_exited q)"
  using stopApp_live_sends_sigterm_only [of spawn None]
  by (simp add: spawn_def stopApp_def kill_def)

subsection \<open>Single-runner executor\<close>

lemma runApp_trace: "trace (snd (runApp d es w)) = trace w @ [SpawnDevServer d]"
  by (simp add: runApp_def perform_def Let_def split: option.splits settle.splits prod.splits)

lemma analyzeApp_trace: "trace (snd (analyzeApp u t rd ae w)) = trace w @ [AnalyzeCall u t]"
  by (simp add: analyzeApp_def perform_def Let_def split: option.splits)

text \<open>
  The analysis returns a result exactly in the environments of \<open>analyze_returns\<close>, and
  the result reports a failure whenever a step of the analysis failed.
\<close>

lemma analyzeApp_returns:
  "analyze_returns ae \<Longrightarrow>
   \<exists>r. fst (analyzeApp u t rd ae w) = Inr r \<and> ar_success r = (ae_failure ae = None)"
  by (auto simp: analyzeApp_def analyze_returns_def Let_def split: option.splits)

lemma analyzeApp_throws:
  "\<not> analyze_returns ae \<Longrightarrow> \<exists>msg. fst (analyzeApp u t rd ae w) = Inl msg"
  by (auto simp: analyzeApp_def analyze_returns_def Let_def split: option.splits)

lemma runApp_resolved:
  assumes "promise (runApp_state es) = Some (t, Resolve rr)"
  shows "runApp d es w = (Inr (rr\<lparr>rr_process := Some (sv_child (runApp_state es))\<rparr>),
      perform (SpawnDevServer d) t w)"
  using assms by (simp add: runApp_def Let_def)

text \<open>The serve stage only ever resolves with \<^verbatim>\<open>success: true\<close>.\<close>

lemma handle_event_resolves_succeed:
  "resolves_succeed s \<Longrightarrow> resolves_succeed (handle_event t e s)"
  by (cases e)
     (auto simp: resolves_succeed_def on_stdout_def on_stderr_def on_error_def on_exit_def
        call_settle_def clearTimeout_def Let_def split: option.splits)

lemma timer_due_resolves_succeed:
  "resolves_succeed s \<Longrightarrow> resolves_succeed (timer_due s)"
  by (auto simp: resolves_succeed_def timer_due_def on_timeout_def call_settle_def)

lemma deliver_resolves_succeed:
  "resolves_succeed s \<Longrightarrow> resolves_succeed (deliver t es s)"
proof (induction es arbitrary: t s)
  case Nil
  then show ?case by (simp add: timer_due_resolves_succeed)
next
  case (Cons a es)
  obtain d e where a: "a = (d, e)" by (cases a)
  have "resolves_succeed (handle_event (t + d) e (if 30000 \<le> t + d then timer_due s else s))"
    using Cons.prems by (simp add: handle_event_resolves_succeed timer_due_resolves_succeed)
  from Cons.IH [OF this] show ?case unfolding a by simp
qed

lemma runApp_state_resolves_success:
  "promise (runApp_state es) = Some (t, Resolve rr) \<Longrightarrow> rr_success rr"
  using deliver_resolves_succeed [of serve_init 0 es]
  by (auto simp: runApp_state_def promise_def serve_init_def resolves_succeed_def
      split: list.splits)

text \<open>
  The path of the \<^verbatim>\<open>try\<close> block on which every stage returns and the server has
  started: the block returns a successful result with the durations of the stages,
  unless the workspace deletion throws.
\<close>

lemma try_success_path:
  assumes "snd (re_generate env) = Inr b" and "br_success (bm_build b)"
    and "compileApp (bm_workspaceDir b) (re_compile env)
           (perform (GenerateCode runnerId (rc_defaultModel cfg)) (fst (re_generate env)) w) = (cr, w2)"
    and "cr_success cr"
    and "runApp (bm_workspaceDir b) (re_serve env) w2 = (Inr rr, w3)"
    and "rr_success rr"
    and "analyzeApp (rr_serverUrl rr) (runnerId @ ''-temp'') resultsDir (re_analyze env) w3
           = (Inr ar, w4)"
    and "stopApp (re_exit_after env) (rr_process rr) = (stopped, dt)"
    and "keep \<or> snd (re_cleanup env) = None"
  shows "\<exists>r w'. runSingleRunner_try cfg runnerId p keep env st w = (Inr r, stopped, w')
     \<and> success r \<and> codeGeneration (durations r) = br_duration (bm_build b)
     \<and> compilation (durations r) = cr_duration cr
     \<and> serverStartup (durations r) = rr_duration rr
     \<and> analysis (durations r) = ar_duration ar"
proof (cases keep)
  case True
  then show ?thesis
    using assms(1-8) by (simp add: runSingleRunner_try_def Let_def)
next
  case False
  then have "snd (re_cleanup env) = None" using assms(9) by simp
  then show ?thesis
    using assms(1-8) by (simp add: runSingleRunner_try_def Let_def)
qed

text \<open>
  Where the \<^verbatim>\<open>try\<close> block calls \<^verbatim>\<open>cleanupWorkspace\<close>: never when the workspaces are
  kept; and when an exception leaves the block, no workspace has been deleted, and
  \<^verbatim>\<open>cleanupWorkspace\<close> has been called only if it is what threw. Every result the
  block returns names the runner it was called for.
\<close>

lemma try_trace:
  assumes "runSingleRunner_try cfg runnerId p keep env st w = (res, sp, w')"
  shows "(keep \<longrightarrow> filter is_cleanup (trace w') = filter is_cleanup (trace w))
     \<and> (\<forall>r. res = Inr r \<longrightarrow> runner r = runnerId)
     \<and> (isl res \<longrightarrow> filter is_deleted (trace w') = filter is_deleted (trace w))
     \<and> (isl res \<and> snd (re_cleanup env) = None \<longrightarrow>
          filter is_cleanup (trace w') = filter is_cleanup (trace w))"
proof (cases "snd (re_generate env)")
  case (Inl e)
  then show ?thesis
    using assms by (auto simp: runSingleRunner_try_def Let_def perform_def)
next
  case (Inr b)
  let ?w1 = "perform (GenerateCode runnerId (rc_defaultModel cfg)) (fst (re_generate env)) w"
  show ?thesis
  proof (cases "br_success (bm_build b)")
    case False
    then show ?thesis
      using assms Inr by (auto simp: runSingleRunner_try_def Let_def perform_def)
  next
    case gen: True
    obtain cr w2 where c: "compileApp (bm_workspaceDir b) (re_compile env) ?w1 = (cr, w2)"
      by (cases "compileApp (bm_workspaceDir b) (re_compile env) ?w1")
    have t2: "filter is_cleanup (trace w2) = filter is_cleanup (trace w)"
      "filter is_deleted (trace w2) = filter is_deleted (trace w)"
      using compileApp_trace_cleanup [of "bm_workspaceDir b" "re_compile env" ?w1]
        compileApp_trace_deleted [of "bm_workspaceDir b" "re_compile env" ?w1] c
      by (simp_all add: perform_def)
    show ?thesis
    proof (cases "cr_success cr")
      case False
      then show ?thesis
        using assms Inr gen c t2 by (auto simp: runSingleRunner_try_def Let_def)
    next
      case comp: True
      obtain rs w3 where r: "runApp (bm_workspaceDir b) (re_serve env) w2 = (rs, w3)"
        by (cases "runApp (bm_workspaceDir b) (re_serve env) w2")
      have t3: "trace w3 = trace w2 @ [SpawnDevServer (bm_workspaceDir b)]"
        using runApp_trace [of "bm_workspaceDir b" "re_serve env" w2] r by simp
      show ?thesis
      proof (cases rs)
        case (Inl e)
        then show ?thesis
          using assms Inr gen c comp r t2 t3 by (auto simp: runSingleRunner_try_def Let_def)
      next
        case rr: (Inr rr)
        show ?thesis
        proof (cases "rr_success rr")
          case False
          then show ?thesis
            using assms Inr gen c comp r rr t2 t3 by (auto simp: runSingleRunner_try_def Let_def)
        next
          case serve: True
          obtain as w4 where a: "analyzeApp (rr_serverUrl rr) (runnerId @ ''-temp'') resultsDir
              (re_analyze env) w3 = (as, w4)"
            by (cases "analyzeApp (rr_serverUrl rr) (runnerId @ ''-temp'') resultsDir
              (re_analyze env) w3")
          have t4: "trace w4 = trace w3 @ [AnalyzeCall (rr_serverUrl rr) (runnerId @ ''-temp'')]"
            using analyzeApp_trace [of "rr_serverUrl rr" "runnerId @ ''-temp''" resultsDir
                "re_analyze env" w3] a by simp
          show ?thesis
          proof (cases as)
            case (Inl e)
            then show ?thesis
              using assms Inr gen c comp r rr serve a t2 t3 t4
              by (auto simp: runSingleRunner_try_def Let_def)
          next
            case ar: (Inr ar)
            obtain stopped dt where s: "stopApp (re_exit_after env) (rr_process rr) = (stopped, dt)"
              by (cases "stopApp (re_exit_after env) (rr_process rr)")
            show ?thesis
            proof (cases "snd (re_cleanup env)")
              case None
              then show ?thesis
                using assms Inr gen c comp r rr serve a ar s t2 t3 t4
                by (auto simp: runSingleRunner_try_def Let_def perform_def split: if_splits)
            next
              case (Some e)
              then show ?thesis
                using assms Inr gen c comp r rr serve a ar s t2 t3 t4
                by (auto simp: runSingleRunner_try_def Let_def perform_def split: if_splits)
            qed
          qed
        qed
      qed
    qed
  qed
qed

text \<open>Evaluation of the stages in the example environments.\<close>

lemma getRunner_sigrid: "getRunner ''sigrid'' = Some sigrid_config"
  by (simp add: getRunner_def RUNNERS_def)

lemma getRunner_claude: "getRunner ''claude'' = Some claude_config"
  by (simp add: getRunner_def RUNNERS_def)

lemma promise_ready:
  "promise (runApp_state [(700, StdoutData ''  Local:   http://localhost:5173/'')]) =
     Some (700, Resolve ready_result)"
  by (simp add: serve_defs ready_result_def localMatch_ready_line)

lemmas run_defs =
  runSingleRunner_def runSingleRunner_try_def getRunner_def RUNNERS_def sigrid_config_def
  claude_config_def compileApp_def compile_build_def runApp_def serve_defs analyzeApp_def
  stopApp_def perform_def Let_def length_or_0_def env_ok_def w_start_def resultsDir_def
  or_str_def

text \<open>
  Claim C3. When generation, compile, serve and analyze have all completed, a failure
  thrown by the workspace deletion is logged as a warning and never escalated: the
  result still reports \<^verbatim>\<open>success == true\<close> with its stage durations. The code does
  not do this: \<^verbatim>\<open>cleanupWorkspace\<close> is awaited inside the \<^verbatim>\<open>try\<close> block, so its
  exception reaches the outer \<^verbatim>\<open>catch\<close>, which discards the successful result and
  returns a failure with all durations 0. Here every stage succeeds and the deletion
  throws.
\<close>

theorem cleanup_failure_fails_runner:
  "fst (runSingleRunner ''claude'' ''todo'' False
          (env_ok\<lparr>re_cleanup := (30, Some ''EACCES: permission denied'')\<rparr>) w_start) =
     Inr \<lparr>runner = ''claude'', model = ''sonnet'', success = False, totalDuration = 71270,
           durations = no_durations, errors = \<lparr>consoleErrors = 0, pageErrors = 0\<rparr>,
           screenshotPath = None, workspaceDir = None,
           error = Some ''EACCES: permission denied''\<rparr>"
  by (simp add: run_defs localMatch_ready_line no_durations_def)

text \<open>
  With \<^verbatim>\<open>keepWorkspaces == true\<close> the executor never calls \<^verbatim>\<open>cleanupWorkspace\<close>,
  whatever the runner and whatever the stages do.
\<close>

lemma keep_workspaces_skips_cleanup:
  "filter is_cleanup (trace (snd (runSingleRunner runnerId p True env w))) = filter is_cleanup (trace w)"
proof (cases "getRunner runnerId")
  case None
  then show ?thesis by (simp add: runSingleRunner_def)
next
  case (Some cfg)
  obtain res sp w' where t: "runSingleRunner_try cfg runnerId p True env (clock w) w = (res, sp, w')"
    by (cases "runSingleRunner_try cfg runnerId p True env (clock w) w")
  have "filter is_cleanup (trace w') = filter is_cleanup (trace w)"
    using try_trace [OF t] by simp
  then show ?thesis
    using Some t by (cases res) (simp_all add: runSingleRunner_def Let_def)
qed

text \<open>
  Claim C4. With \<^verbatim>\<open>keepWorkspaces == true\<close> the workspace deletion is never invoked;
  with \<^verbatim>\<open>keepWorkspaces == false\<close> it runs whichever state the executor reached, also
  when the compile or serve stage failed. The first half holds
  (\<open>keep_workspaces_skips_cleanup\<close>). The second does not: the deletion is the last
  statement of the successful path only, and the returns for a failed generation,
  compile or serve stage leave before it. Here the build fails with
  \<^verbatim>\<open>keepWorkspaces == false\<close>, and the trace of the execution ends with the build.
\<close>

theorem compile_failure_skips_cleanup:
  "runSingleRunner ''sigrid'' ''todo'' False (env_ok\<lparr>re_compile := build_fails\<rparr>) w_start =
     (Inr \<lparr>runner = ''sigrid'', model = ''gpt-5'', success = False, totalDuration = 68000,
            durations = \<lparr>codeGeneration = 59000, compilation = 8000, serverStartup = 0,
                         analysis = 0\<rparr>,
            errors = \<lparr>consoleErrors = 0, pageErrors = 0\<rparr>,
            screenshotPath = None, workspaceDir = Some ''/tmp/ws'',
            error = Some ''Compilation failed''\<rparr>,
      \<lparr>clock = 68000,
        trace = [GenerateCode ''sigrid'' ''gpt-5'', AccessNodeModules ''/tmp/ws'',
                 NpmRunBuild ''/tmp/ws'']\<rparr>)"
  by (simp add: run_defs build_fails_def)

text \<open>
  Claim C5, as amended. When, within 30000 ms, no chunk of standard output matches the
  ready pattern and the process neither exits nor emits an error event, the serve
  stage fails with the error \<^verbatim>\<open>Server startup timeout (30s)\<close>, which contains
  \<^verbatim>\<open>timeout\<close>; the dev server has been sent the termination signal; and a runner whose
  generation and compile stages succeeded returns a failed result with that error
  without ever invoking the analyze stage.
\<close>

theorem serve_timeout_fails_runner:
  assumes "pattern_absent 0 (re_serve env)" and "alive_until_timeout 0 (re_serve env)"
  shows "fst (runApp d (re_serve env) w0) = Inl ''Server startup timeout (30s)''
     \<and> str_includes ''Server startup timeout (30s)'' ''timeout''
     \<and> cp_killed (sv_child (runApp_state (re_serve env)))
     \<and> cp_signals (sv_child (runApp_state (re_serve env))) = [SIGTERM]
     \<and> (getRunner runnerId = Some cfg \<and> snd (re_generate env) = Inr b \<and> br_success (bm_build b)
          \<and> compile_succeeds (re_compile env) \<longrightarrow>
         (\<exists>r w'. runSingleRunner runnerId p keep env w = (Inr r, w') \<and> \<not> success r
            \<and> error r = Some ''Server startup timeout (30s)''
            \<and> filter is_analyze (trace w') = filter is_analyze (trace w)))"
proof -
  have stage: "fst (runApp d (re_serve env) w0) = Inl ''Server startup timeout (30s)''"
    by (simp add: runApp_times_out [OF assms])
  have inc: "str_includes ''Server startup timeout (30s)'' ''timeout''"
    by simp
  have killed: "cp_killed (sv_child (runApp_state (re_serve env)))
      \<and> cp_signals (sv_child (runApp_state (re_serve env))) = [SIGTERM]"
    using deliver_waiting_times_out [OF waiting_serve_init assms]
    by (simp add: runApp_state_def)
  have run: "\<exists>r w'. runSingleRunner runnerId p keep env w = (Inr r, w') \<and> \<not> success r
            \<and> error r = Some ''Server startup timeout (30s)''
            \<and> filter is_analyze (trace w') = filter is_analyze (trace w)"
    if h: "getRunner runnerId = Some cfg" "snd (re_generate env) = Inr b" "br_success (bm_build b)"
      "compile_succeeds (re_compile env)"
  proof -
    let ?w1 = "perform (GenerateCode runnerId (rc_defaultModel cfg)) (fst (re_generate env)) w"
    obtain cr w2 where c: "compileApp (bm_workspaceDir b) (re_compile env) ?w1 = (cr, w2)"
      by (cases "compileApp (bm_workspaceDir b) (re_compile env) ?w1")
    have crs: "cr_success cr"
      using compileApp_success [of "bm_workspaceDir b" "re_compile env" ?w1] c h(4) by simp
    have tr2: "filter is_analyze (trace w2) = filter is_analyze (trace w)"
      using compileApp_trace_analyze [of "bm_workspaceDir b" "re_compile env" ?w1] c
      by (simp add: perform_def)
    have "runSingleRunner_try cfg runnerId p keep env (clock w) w =
        (Inl ''Server startup timeout (30s)'', None,
         perform (SpawnDevServer (bm_workspaceDir b)) 30000 w2)"
      using h c crs by (simp add: runSingleRunner_try_def Let_def runApp_times_out [OF assms])
    then show ?thesis
      using h(1) tr2 by (simp add: runSingleRunner_def Let_def stopApp_def perform_def)
  qed
  show ?thesis using stage inc killed run by blast
qed

text \<open>
  The claim as stated asks only that the ready pattern does not appear within 30000 ms.
  A server that exits after 100 ms without printing anything satisfies that, and the
  stage then fails with \<^verbatim>\<open>Server exited with code 1\<close>: no timeout, and no signal sent.
\<close>

theorem serve_early_exit_counterexample:
  "pattern_absent 0 [(100, ExitEvent (Some 1))]
   \<and> fst (runApp ''/tmp/ws'' [(100, ExitEvent (Some 1))] w_start) = Inl ''Server exited with code 1''
   \<and> \<not> str_includes ''Server exited with code 1'' ''timeout''
   \<and> cp_kill_calls (sv_child (runApp_state [(100, ExitEvent (Some 1))])) = []"
  by (simp add: runApp_def serve_defs Let_def)

theorem serve_timeout_fails_runner_witness:
  "pattern_absent 0 (re_serve env_slow) \<and> alive_until_timeout 0 (re_serve env_slow)
   \<and> fst (runApp ''/tmp/ws'' (re_serve env_slow) w_start) = Inl ''Server startup timeout (30s)''
   \<and> cp_signals (sv_child (runApp_state (re_serve env_slow))) = [SIGTERM]
   \<and> (\<exists>r w'. runSingleRunner ''sigrid'' ''todo'' False env_slow w_start = (Inr r, w')
         \<and> \<not> success r \<and> error r = Some ''Server startup timeout (30s)''
         \<and> filter is_analyze (trace w') = [])"
proof -
  have h1: "pattern_absent 0 (re_serve env_slow)"
    by (simp add: env_slow_def localMatch_banner)
  have h2: "alive_until_timeout 0 (re_serve env_slow)"
    by (simp add: env_slow_def)
  have h3: "getRunner ''sigrid'' = Some sigrid_config \<and> snd (re_generate env_slow) = Inr generated_ok
      \<and> br_success (bm_build generated_ok) \<and> compile_succeeds (re_compile env_slow)"
    by (simp add: getRunner_sigrid env_slow_def env_ok_def generated_ok_def compile_succeeds_def
        exec_ok_def)
  show ?thesis
    using h1 h2 h3
      serve_timeout_fails_runner [OF h1 h2, of "''/tmp/ws''" w_start "''sigrid''" sigrid_config
        generated_ok "''todo''" False w_start]
    by (simp add: w_start_def)
qed

text \<open>
  Claim C9, as amended. When code generation, compilation and server startup succeed,
  the analyze stage returns a result (whatever its \<^verbatim>\<open>success\<close> flag), and the
  workspaces are kept or the workspace deletion does not throw, the executor's result
  has \<^verbatim>\<open>success == true\<close>: a failure reported by the analyze stage never fails the
  runner.
\<close>

theorem analyze_failure_keeps_success:
  assumes "getRunner runnerId = Some cfg"
    and "snd (re_generate env) = Inr b" and "br_success (bm_build b)"
    and "compile_succeeds (re_compile env)"
    and "promise (runApp_state (re_serve env)) = Some (t, Resolve rr)"
    and "analyze_returns (re_analyze env)"
    and "keep \<or> snd (re_cleanup env) = None"
  shows "\<exists>r w'. runSingleRunner runnerId p keep env w = (Inr r, w') \<and> success r
     \<and> codeGeneration (durations r) = br_duration (bm_build b)
     \<and> serverStartup (durations r) = rr_duration rr"
proof -
  let ?w1 = "perform (GenerateCode runnerId (rc_defaultModel cfg)) (fst (re_generate env)) w"
  obtain cr w2 where c: "compileApp (bm_workspaceDir b) (re_compile env) ?w1 = (cr, w2)"
    by (cases "compileApp (bm_workspaceDir b) (re_compile env) ?w1")
  have crs: "cr_success cr"
    using compileApp_success [of "bm_workspaceDir b" "re_compile env" ?w1] c assms(4) by simp
  let ?rr = "rr\<lparr>rr_process := Some (sv_child (runApp_state (re_serve env)))\<rparr>"
  let ?w3 = "perform (SpawnDevServer (bm_workspaceDir b)) t w2"
  have run: "runApp (bm_workspaceDir b) (re_serve env) w2 = (Inr ?rr, ?w3)"
    using runApp_resolved [OF assms(5)] by simp
  have rrs: "rr_success ?rr"
    using runApp_state_resolves_success [OF assms(5)] by simp
  obtain ar where ar: "fst (analyzeApp (rr_serverUrl ?rr) (runnerId @ ''-temp'') resultsDir
        (re_analyze env) ?w3) = Inr ar"
    using analyzeApp_returns [OF assms(6)] by blast
  obtain w4 where an: "analyzeApp (rr_serverUrl ?rr) (runnerId @ ''-temp'') resultsDir
        (re_analyze env) ?w3 = (Inr ar, w4)"
    using ar by (cases "analyzeApp (rr_serverUrl ?rr) (runnerId @ ''-temp'') resultsDir
        (re_analyze env) ?w3") simp
  obtain stopped dt where st: "stopApp (re_exit_after env) (rr_process ?rr) = (stopped, dt)"
    by (cases "stopApp (re_exit_after env) (rr_process ?rr)")
  obtain r w' where "runSingleRunner_try cfg runnerId p keep env (clock w) w = (Inr r, stopped, w')"
    "success r" "codeGeneration (durations r) = br_duration (bm_build b)"
    "serverStartup (durations r) = rr_duration ?rr"
    using try_success_path [OF assms(2,3) c crs run rrs an st assms(7)] by blast
  then show ?thesis
    using assms(1) by (simp add: runSingleRunner_def Let_def)
qed

text \<open>
  The claim as stated has the result successful whenever generation, compilation and
  server startup succeed, and the failed state unreachable from the analyze stage.
  When the navigation fails and closing the browser inside the \<^verbatim>\<open>catch\<close> block of
  \<^verbatim>\<open>analyzeApp\<close> throws too, the exception leaves the stage and the executor's outer
  \<^verbatim>\<open>catch\<close> returns a failed result.
\<close>

theorem analyze_exception_counterexample:
  "snd (re_generate (env_ok\<lparr>re_analyze := analyze_throws\<rparr>)) = Inr generated_ok
   \<and> br_success (bm_build generated_ok)
   \<and> compile_succeeds (re_compile (env_ok\<lparr>re_analyze := analyze_throws\<rparr>))
   \<and> promise (runApp_state (re_serve (env_ok\<lparr>re_analyze := analyze_throws\<rparr>)))
       = Some (700, Resolve ready_result)
   \<and> fst (runSingleRunner ''sigrid'' ''todo'' True (env_ok\<lparr>re_analyze := analyze_throws\<rparr>) w_start)
       = Inr \<lparr>runner = ''sigrid'', model = ''gpt-5'', success = False, totalDuration = 98750,
               durations = no_durations, errors = \<lparr>consoleErrors = 0, pageErrors = 0\<rparr>,
               screenshotPath = None, workspaceDir = None,
               error = Some ''browser.close: Target closed''\<rparr>"
proof -
  have "promise (runApp_state (re_serve (env_ok\<lparr>re_analyze := analyze_throws\<rparr>)))
       = Some (700, Resolve ready_result)"
    using promise_ready by (simp add: env_ok_def)
  moreover have "compile_succeeds (re_compile (env_ok\<lparr>re_analyze := analyze_throws\<rparr>))"
    by (simp add: env_ok_def compile_succeeds_def exec_ok_def)
  moreover have "fst (runSingleRunner ''sigrid'' ''todo'' True
        (env_ok\<lparr>re_analyze := analyze_throws\<rparr>) w_start)
       = Inr \<lparr>runner = ''sigrid'', model = ''gpt-5'', success = False, totalDuration = 98750,
               durations = no_durations, errors = \<lparr>consoleErrors = 0, pageErrors = 0\<rparr>,
               screenshotPath = None, workspaceDir = None,
               error = Some ''browser.close: Target closed''\<rparr>"
    by (simp add: run_defs localMatch_ready_line analyze_throws_def no_durations_def)
  ultimately show ?thesis
    by (simp add: env_ok_def generated_ok_def)
qed

theorem analyze_failure_keeps_success_witness:
  "getRunner ''sigrid'' = Some sigrid_config
   \<and> snd (re_generate (env_ok\<lparr>re_analyze := analyze_fails\<rparr>)) = Inr generated_ok
   \<and> br_success (bm_build generated_ok)
   \<and> compile_succeeds (re_compile (env_ok\<lparr>re_analyze := analyze_fails\<rparr>))
   \<and> promise (runApp_state (re_serve (env_ok\<lparr>re_analyze := analyze_fails\<rparr>)))
       = Some (700, Resolve ready_result)
   \<and> analyze_returns analyze_fails \<and> ae_failure analyze_fails \<noteq> None
   \<and> (\<exists>r w'. runSingleRunner ''sigrid'' ''todo'' False (env_ok\<lparr>re_analyze := analyze_fails\<rparr>) w_start
          = (Inr r, w') \<and> success r \<and> codeGeneration (durations r) = 59000
          \<and> serverStartup (durations r) = 700)"
proof -
  let ?env = "env_ok\<lparr>re_analyze := analyze_fails\<rparr>"
  have h1: "getRunner ''sigrid'' = Some sigrid_config" by (rule getRunner_sigrid)
  have h2: "snd (re_generate ?env) = Inr generated_ok" by (simp add: env_ok_def generated_ok_def)
  have h3: "br_success (bm_build generated_ok)" by (simp add: generated_ok_def)
  have h4: "compile_succeeds (re_compile ?env)"
    by (simp add: env_ok_def compile_succeeds_def exec_ok_def)
  have h5: "promise (runApp_state (re_serve ?env)) = Some (700, Resolve ready_result)"
    using promise_ready by (simp add: env_ok_def)
  have h6: "analyze_returns (re_analyze ?env)"
    by (simp add: analyze_returns_def analyze_fails_def)
  have h7: "False \<or> snd (re_cleanup ?env) = None" by (simp add: env_ok_def)
  have h8: "ae_failure analyze_fails \<noteq> None" by (simp add: analyze_fails_def analyze_throws_def)
  show ?thesis
    using h1 h2 h3 h4 h5 h6 h8
      analyze_failure_keeps_success [OF h1 h2 h3 h4 h5 h6 h7, of "''todo''" w_start]
    by (simp add: generated_ok_def ready_result_def)
qed

text \<open>
  Claim C10. Whenever an exception is caught at the executor's outer boundary, the
  returned result has all four stage durations equal to 0 and no \<^verbatim>\<open>workspaceDir\<close>,
  even if earlier stages had completed and created a workspace, and the workspace is
  not cleaned up on this path: the \<^verbatim>\<open>catch\<close> block performs no action of its own on
  the workspace, no workspace has been deleted, and \<^verbatim>\<open>cleanupWorkspace\<close> has not been
  called unless it is what threw.
\<close>

theorem outer_catch_result:
  assumes "getRunner runnerId = Some cfg"
    and "runSingleRunner_try cfg runnerId p keep env (clock w) w = (Inl e, sp, w1)"
  shows "\<exists>r w2. runSingleRunner runnerId p keep env w = (Inr r, w2)
     \<and> \<not> success r \<and> error r = Some e
     \<and> durations r = no_durations \<and> workspaceDir r = None
     \<and> trace w2 = trace w1
     \<and> filter is_deleted (trace w2) = filter is_deleted (trace w)
     \<and> (snd (re_cleanup env) = None \<longrightarrow>
          filter is_cleanup (trace w2) = filter is_cleanup (trace w))"
  using assms try_trace [OF assms(2)]
  by (simp add: runSingleRunner_def Let_def no_durations_def)

theorem outer_catch_result_witness:
  "getRunner ''sigrid'' = Some sigrid_config
   \<and> runSingleRunner_try sigrid_config ''sigrid'' ''todo'' False env_exits (clock w_start) w_start =
       (Inl ''Server exited with code 1'', None,
        \<lparr>clock = 68100,
          trace = [GenerateCode ''sigrid'' ''gpt-5'', AccessNodeModules ''/tmp/ws'',
                   NpmRunBuild ''/tmp/ws'', SpawnDevServer ''/tmp/ws'']\<rparr>)
   \<and> (\<exists>r w2. runSingleRunner ''sigrid'' ''todo'' False env_exits w_start = (Inr r, w2)
         \<and> \<not> success r \<and> error r = Some ''Server exited with code 1''
         \<and> durations r = no_durations \<and> workspaceDir r = None
         \<and> filter is_cleanup (trace w2) = [] \<and> filter is_deleted (trace w2) = [])"
proof -
  have h1: "getRunner ''sigrid'' = Some sigrid_config" by (rule getRunner_sigrid)
  have h2: "runSingleRunner_try sigrid_config ''sigrid'' ''todo'' False env_exits (clock w_start) w_start =
       (Inl ''Server exited with code 1'', None,
        \<lparr>clock = 68100,
          trace = [GenerateCode ''sigrid'' ''gpt-5'', AccessNodeModules ''/tmp/ws'',
                   NpmRunBuild ''/tmp/ws'', SpawnDevServer ''/tmp/ws'']\<rparr>)"
    by (simp add: run_defs env_exits_def)
  have h3: "snd (re_cleanup env_exits) = None" by (simp add: env_exits_def env_ok_def)
  show ?thesis
    using h1 h2 h3 outer_catch_result [OF h1 h2]
    by (auto simp: w_start_def)
qed

subsection \<open>Multi-runner orchestrator\<close>

text \<open>A filter that is accepted selects registered runners only.\<close>

lemma parseRunnerFilter_valid:
  assumes "parseRunnerFilter flt allRunners = Inr sel"
  shows "set sel \<subseteq> set allRunners"
proof (cases "flt = []")
  case True
  then show ?thesis using assms by (simp add: parseRunnerFilter_def)
next
  case False
  let ?requested = "map trim (split_on CHR '','' flt)"
  have inv: "filter (\<lambda>r. r \<notin> set allRunners) ?requested = []" and sel: "sel = ?requested"
    using assms False by (simp_all add: parseRunnerFilter_def Let_def split: if_splits)
  show ?thesis
    using inv unfolding sel by (auto simp: filter_empty_conv)
qed

lemma getRunner_available: "r \<in> set getAvailableRunners \<Longrightarrow> \<exists>cfg. getRunner r = Some cfg"
  by (auto simp: getAvailableRunners_def getRunner_def RUNNERS_def)

text \<open>
  For a registered runner the body of the loop always pushes one result: the
  executor's, or the synthetic failed result when the executor throws.
\<close>

lemma run_one_registered:
  assumes "getRunner r = Some cfg"
  shows "run_one exec p keep env r w =
     Inr (case exec r p keep env w of
            (Inr result, w1) \<Rightarrow> (result, copy_step r result w1)
          | (Inl msg, w1) \<Rightarrow> (synthetic_result r cfg msg, w1))"
  using assms by (simp add: run_one_def split: prod.splits sum.splits)

text \<open>
  The loop over registered runners never stops early: it appends one result for each
  runner, in order, whatever the executor does.
\<close>

lemma run_loop_results:
  assumes "\<forall>r \<in> set sel. \<exists>cfg. getRunner r = Some cfg"
  shows "\<exists>res w'. run_loop exec p keep envs i sel acc w = Inr (acc @ res, w')
     \<and> length res = length sel
     \<and> (\<forall>j < length sel. pushed exec p keep (envs (i + j)) (sel ! j) (res ! j))"
  using assms
proof (induction sel arbitrary: i acc w)
  case Nil
  then show ?case by simp
next
  case (Cons r rest)
  obtain cfg where cfg: "getRunner r = Some cfg" using Cons.prems by auto
  obtain res0 w1 where one: "run_one exec p keep (envs i) r w = Inr (res0, w1)"
    using run_one_registered [OF cfg, of exec p keep "envs i" w]
    by (cases "case exec r p keep (envs i) w of
            (Inr result, w1) \<Rightarrow> (result, copy_step r result w1)
          | (Inl msg, w1) \<Rightarrow> (synthetic_result r cfg msg, w1)") simp
  have p0: "pushed exec p keep (envs i) r res0"
    using one run_one_registered [OF cfg, of exec p keep "envs i" w] cfg
    unfolding pushed_def
    by (intro exI [of _ w]) (auto split: prod.splits sum.splits)
  have "\<forall>r \<in> set rest. \<exists>cfg. getRunner r = Some cfg" using Cons.prems by simp
  from Cons.IH [OF this, of "Suc i" "acc @ [res0]" w1]
  obtain res' w' where
    loop: "run_loop exec p keep envs (Suc i) rest (acc @ [res0]) w1 = Inr ((acc @ [res0]) @ res', w')"
    and len: "length res' = length rest"
    and each: "\<forall>j < length rest. pushed exec p keep (envs (Suc i + j)) (rest ! j) (res' ! j)"
    by blast
  have "\<forall>j < length (r # rest). pushed exec p keep (envs (i + j)) ((r # rest) ! j) ((res0 # res') ! j)"
  proof (intro allI impI)
    fix j assume "j < length (r # rest)"
    then show "pushed exec p keep (envs (i + j)) ((r # rest) ! j) ((res0 # res') ! j)"
      using p0 each by (cases j) simp_all
  qed
  then show ?case
    using one loop len by (intro exI [of _ "res0 # res'"] exI [of _ w']) simp
qed

lemma runSingleRunner_labels:
  assumes "runSingleRunner r p k e w = (Inr res, w1)"
  shows "runner res = r"
proof (cases "getRunner r")
  case None
  then show ?thesis using assms by (simp add: runSingleRunner_def)
next
  case (Some cfg)
  obtain x sp w' where t: "runSingleRunner_try cfg r p k e (clock w) w = (x, sp, w')"
    by (cases "runSingleRunner_try cfg r p k e (clock w) w")
  show ?thesis
    using assms Some t try_trace [OF t]
    by (cases x) (auto simp: runSingleRunner_def Let_def)
qed

lemma pushed_runner:
  assumes "pushed exec p keep env r res"
    and "\<forall>r p k e w res w1. exec r p k e w = (Inr res, w1) \<longrightarrow> runner res = r"
  shows "runner res = r"
proof -
  from assms(1) [unfolded pushed_def]
  obtain w where w: "case exec r p keep env w of
            (Inr result, w1) \<Rightarrow> res = result
          | (Inl msg, w1) \<Rightarrow> \<exists>cfg. getRunner r = Some cfg \<and> res = synthetic_result r cfg msg" ..
  obtain x w1 where x: "exec r p keep env w = (x, w1)" by (cases "exec r p keep env w")
  show ?thesis
  proof (cases x)
    case (Inl msg)
    then show ?thesis using w x by (auto simp: synthetic_result_def)
  next
    case (Inr result)
    then show ?thesis
      using w x assms(2) [rule_format, of r p keep env w result w1] by simp
  qed
qed

lemma publish_keeps:
  "runner (publish r) = runner r" "success (publish r) = success r"
  "totalDuration (publish r) = totalDuration r"
  by (simp_all add: publish_def)

lemma count_by_runner:
  "length (filter (\<lambda>x. runner x = r) xs) = count_list (map runner xs) r"
  by (induction xs) auto

lemma orchestrator_results:
  assumes "parseRunnerFilter (case opt_filter options of None \<Rightarrow> [] | Some f \<Rightarrow> f)
             getAvailableRunners = Inr sel"
    and "be_mkdir_failure env = None" and "be_write_failure env = None"
  shows "\<exists>results w'. runMultiRunnerBenchmarkWith exec app prmpt options env w =
       Inr (\<lparr>appName = app, timestamp = be_timestamp env, dateStr = be_dateStr env,
             prompt = prmpt, runners = map publish results,
             summary = make_summary results\<rparr>, w')
     \<and> length results = length sel
     \<and> (\<forall>j < length sel.
          pushed exec prmpt (case opt_keepWorkspaces options of None \<Rightarrow> False | Some k \<Rightarrow> k)
            (be_runner env j) (sel ! j) (results ! j))"
proof -
  let ?keep = "case opt_keepWorkspaces options of None \<Rightarrow> False | Some k \<Rightarrow> k"
  have reg: "\<forall>r \<in> set sel. \<exists>cfg. getRunner r = Some cfg"
    using parseRunnerFilter_valid [OF assms(1)] getRunner_available by blast
  obtain res w1 where
    loop: "run_loop exec prmpt ?keep (be_runner env) 0 sel [] (perform Mkdir 0 w) = Inr ([] @ res, w1)"
    and len: "length res = length sel"
    and each: "\<forall>j < length sel. pushed exec prmpt ?keep (be_runner env (0 + j)) (sel ! j) (res ! j)"
    using run_loop_results [OF reg, of exec prmpt ?keep "be_runner env" 0 "[]" "perform Mkdir 0 w"]
    by blast
  show ?thesis
    using assms loop len each
    by (intro exI [of _ res] exI [of _ "perform WriteMetadata 0 w1"])
       (simp add: runMultiRunnerBenchmarkWith_def Let_def)
qed

text \<open>
  Claim C1, as amended. For every invocation of the orchestrator whose filter is
  accepted and whose output directory and metadata file can be written, and for every
  executor (one that throws for some or all runners included) whose results name the
  runner they were computed for, as those of \<open>runSingleRunner\<close> do: the metadata
  holds exactly one result for each entry of the parsed filter, in the order of the
  filter (the registered runners in registry order when there is no filter), so a
  runner has as many results as the filter names it; the result at each position is
  the one the executor returned for that entry, or the synthetic failed result for
  the exception it threw. No outcome of one runner removes or prevents the result of
  another.
\<close>

theorem orchestrator_one_result_per_runner:
  assumes "parseRunnerFilter (case opt_filter options of None \<Rightarrow> [] | Some f \<Rightarrow> f)
             getAvailableRunners = Inr sel"
    and "be_mkdir_failure env = None" and "be_write_failure env = None"
    and "\<forall>r p k e w res w1. exec r p k e w = (Inr res, w1) \<longrightarrow> runner res = r"
  shows "\<exists>md w'. runMultiRunnerBenchmarkWith exec app prmpt options env w = Inr (md, w')
     \<and> length (runners md) = length sel
     \<and> map runner (runners md) = sel
     \<and> (\<forall>r. length (filter (\<lambda>x. runner x = r) (runners md)) = count_list sel r)
     \<and> (\<forall>j < length sel. \<exists>res.
          pushed exec prmpt (case opt_keepWorkspaces options of None \<Rightarrow> False | Some k \<Rightarrow> k)
            (be_runner env j) (sel ! j) res
          \<and> runners md ! j = publish res)"
proof -
  let ?keep = "case opt_keepWorkspaces options of None \<Rightarrow> False | Some k \<Rightarrow> k"
  obtain results w' where
    run: "runMultiRunnerBenchmarkWith exec app prmpt options env w =
       Inr (\<lparr>appName = app, timestamp = be_timestamp env, dateStr = be_dateStr env,
             prompt = prmpt, runners = map publish results,
             summary = make_summary results\<rparr>, w')"
    and len: "length results = length sel"
    and each: "\<forall>j < length sel. pushed exec prmpt ?keep (be_runner env j) (sel ! j) (results ! j)"
    using orchestrator_results [OF assms(1-3)] by blast
  let ?md = "\<lparr>appName = app, timestamp = be_timestamp env, dateStr = be_dateStr env,
             prompt = prmpt, runners = map publish results,
             summary = make_summary results\<rparr>"
  have names: "map runner (runners ?md) = sel"
  proof (rule nth_equalityI)
    show "length (map runner (runners ?md)) = length sel" using len by simp
  next
    fix j assume "j < length (map runner (runners ?md))"
    then have j: "j < length sel" using len by simp
    then have "runner (results ! j) = sel ! j"
      using each pushed_runner [OF _ assms(4), of prmpt ?keep "be_runner env j" "sel ! j" "results ! j"]
      by blast
    then show "map runner (runners ?md) ! j = sel ! j"
      using j len by (simp add: publish_keeps)
  qed
  have counts: "\<forall>r. length (filter (\<lambda>x. runner x = r) (runners ?md)) = count_list sel r"
    using names count_by_runner [of _ "runners ?md"] by simp
  have idx: "\<forall>j < length sel. \<exists>res. pushed exec prmpt ?keep (be_runner env j) (sel ! j) res
      \<and> runners ?md ! j = publish res"
    using each len by auto
  show ?thesis
    using run len names counts idx by (intro exI [of _ ?md] exI [of _ w']) simp
qed

lemmas bench_defs =
  runMultiRunnerBenchmark_def runMultiRunnerBenchmarkWith_def parseRunnerFilter_def
  getAvailableRunners_def run_one_def copy_step_def synthetic_result_def make_summary_def
  fastest_def publish_def basename_def bench_two_def no_options_def env_fast_def

lemma exec_sigrid_throws_labels:
  "\<forall>r p k e w res w1. exec_sigrid_throws r p k e w = (Inr res, w1) \<longrightarrow> runner res = r"
  by (auto simp: exec_sigrid_throws_def dest: runSingleRunner_labels split: if_splits)

text \<open>
  The claim as stated has exactly one result for every selected runner.
  \<^verbatim>\<open>parseRunnerFilter\<close> keeps the entries of the filter as they are written, repeated
  ones included, and in the order of the filter: the accepted filter
  \<^verbatim>\<open>sigrid,sigrid\<close> runs the runner twice, and the metadata holds two results for it.
\<close>

theorem duplicate_filter_counterexample:
  "parseRunnerFilter ''sigrid,sigrid'' getAvailableRunners = Inr [''sigrid'', ''sigrid'']
   \<and> map_sum id (\<lambda>(md, w'). map runner (runners md))
        (runMultiRunnerBenchmark ''todo-app'' ''todo''
           \<lparr>opt_filter = Some ''sigrid,sigrid'', opt_keepWorkspaces = None\<rparr> bench_two w_start)
       = Inr [''sigrid'', ''sigrid'']
   \<and> map_sum id (\<lambda>(md, w'). length (filter (\<lambda>x. runner x = ''sigrid'') (runners md)))
        (runMultiRunnerBenchmark ''todo-app'' ''todo''
           \<lparr>opt_filter = Some ''sigrid,sigrid'', opt_keepWorkspaces = None\<rparr> bench_two w_start)
       = Inr 2"
  by (simp add: bench_defs run_defs localMatch_ready_line trim_def is_space_def)

text \<open>The order of the results is that of the filter, not that of the registry.\<close>

lemma parseRunnerFilter_keeps_filter_order:
  "parseRunnerFilter ''claude, sigrid'' getAvailableRunners = Inr [''claude'', ''sigrid'']"
  by (simp add: parseRunnerFilter_def getAvailableRunners_def RUNNERS_def trim_def is_space_def)

theorem orchestrator_one_result_per_runner_witness:
  "parseRunnerFilter [] getAvailableRunners = Inr [''sigrid'', ''claude'']
   \<and> (\<exists>md w'. runMultiRunnerBenchmarkWith exec_sigrid_throws ''todo-app'' ''todo'' no_options
          bench_two w_start = Inr (md, w')
        \<and> length (runners md) = 2
        \<and> map runner (runners md) = [''sigrid'', ''claude'']
        \<and> map success (runners md) = [False, True]
        \<and> map error (runners md) = [Some ''spawn ENOMEM'', None])"
proof -
  let ?run = "runMultiRunnerBenchmarkWith exec_sigrid_throws ''todo-app'' ''todo'' no_options
      bench_two w_start"
  have h1: "parseRunnerFilter (case opt_filter no_options of None \<Rightarrow> [] | Some f \<Rightarrow> f)
      getAvailableRunners = Inr [''sigrid'', ''claude'']"
    by (simp add: parseRunnerFilter_def getAvailableRunners_def RUNNERS_def no_options_def)
  have h2: "be_mkdir_failure bench_two = None" "be_write_failure bench_two = None"
    by (simp_all add: bench_two_def)
  have ev: "map_sum id (\<lambda>(md, w'). (map success (runners md), map error (runners md))) ?run
      = Inr ([False, True], [Some ''spawn ENOMEM'', None])"
    by (simp add: bench_defs exec_sigrid_throws_def run_defs localMatch_ready_line)
  obtain md w' where run: "?run = Inr (md, w')" and len: "length (runners md) = 2"
    and names: "map runner (runners md) = [''sigrid'', ''claude'']"
    using orchestrator_one_result_per_runner [OF h1 h2 exec_sigrid_throws_labels,
        of "''todo-app''" "''todo''" w_start]
    by auto
  show ?thesis
    using h1 run len names ev by (simp add: no_options_def)
qed

text \<open>The same for \<^verbatim>\<open>runMultiRunnerBenchmark\<close> itself.\<close>

lemma runMultiRunnerBenchmark_one_result_per_runner:
  assumes "parseRunnerFilter (case opt_filter options of None \<Rightarrow> [] | Some f \<Rightarrow> f)
             getAvailableRunners = Inr sel"
    and "be_mkdir_failure env = None" and "be_write_failure env = None"
  shows "\<exists>md w'. runMultiRunnerBenchmark app prmpt options env w = Inr (md, w')
     \<and> map runner (runners md) = sel"
proof -
  obtain results w' where
    run: "runMultiRunnerBenchmarkWith runSingleRunner app prmpt options env w =
       Inr (\<lparr>appName = app, timestamp = be_timestamp env, dateStr = be_dateStr env,
             prompt = prmpt, runners = map publish results,
             summary = make_summary results\<rparr>, w')"
    and len: "length results = length sel"
    and each: "\<forall>j < length sel. pushed runSingleRunner prmpt
        (case opt_keepWorkspaces options of None \<Rightarrow> False | Some k \<Rightarrow> k)
        (be_runner env j) (sel ! j) (results ! j)"
    using orchestrator_results [OF assms] by blast
  have lab: "\<forall>r p k e w res w1. runSingleRunner r p k e w = (Inr res, w1) \<longrightarrow> runner res = r"
    using runSingleRunner_labels by blast
  have "map runner (map publish results) = sel"
  proof (rule nth_equalityI)
    show "length (map runner (map publish results)) = length sel" using len by simp
  next
    fix j assume "j < length (map runner (map publish results))"
    then have j: "j < length sel" using len by simp
    then have "runner (results ! j) = sel ! j"
      using each pushed_runner [OF _ lab] by blast
    then show "map runner (map publish results) ! j = sel ! j"
      using j len by (simp add: publish_keeps)
  qed
  then show ?thesis
    using run by (simp add: runMultiRunnerBenchmark_def)
qed

subsection \<open>Summary\<close>

text \<open>
  The \<^verbatim>\<open>reduce\<close> over a non-empty array returns an element that is strictly faster
  than every element before it and at least as fast as every element after it.
\<close>

lemma foldl_min_split:
  fixes f :: "RunnerBenchmarkResult \<Rightarrow> RunnerBenchmarkResult \<Rightarrow> RunnerBenchmarkResult"
  defines "f \<equiv> (\<lambda>mn r. if totalDuration r < totalDuration mn then r else mn)"
  shows "\<exists>pre post. r0 # rs = pre @ foldl f r0 rs # post
     \<and> (\<forall>x \<in> set pre. totalDuration (foldl f r0 rs) < totalDuration x)
     \<and> (\<forall>x \<in> set post. totalDuration (foldl f r0 rs) \<le> totalDuration x)"
proof (induction rs rule: rev_induct)
  case Nil
  show ?case by (intro exI [of _ "[]"]) simp
next
  case (snoc x rs)
  let ?m = "foldl f r0 rs"
  obtain pre post where d: "r0 # rs = pre @ ?m # post"
    and lt: "\<forall>y \<in> set pre. totalDuration ?m < totalDuration y"
    and le: "\<forall>y \<in> set post. totalDuration ?m \<le> totalDuration y"
    using snoc.IH by blast
  show ?case
  proof (cases "totalDuration x < totalDuration ?m")
    case True
    then have m: "foldl f r0 (rs @ [x]) = x" by (simp add: f_def)
    have "\<forall>y \<in> set (r0 # rs). totalDuration x < totalDuration y"
      unfolding d using True lt le by fastforce
    then show ?thesis
      unfolding m by (intro exI [of _ "r0 # rs"] exI [of _ "[]"]) simp
  next
    case False
    then have m: "foldl f r0 (rs @ [x]) = ?m" by (simp add: f_def)
    have "r0 # rs @ [x] = pre @ ?m # (post @ [x])" using d by simp
    moreover have "\<forall>y \<in> set (post @ [x]). totalDuration ?m \<le> totalDuration y"
      using le False by auto
    ultimately show ?thesis
      unfolding m using lt by blast
  qed
qed

lemma filter_split:
  assumes "filter P xs = pre @ r # post"
  shows "\<exists>pre' post'. xs = pre' @ r # post' \<and> filter P pre' = pre \<and> filter P post' = post \<and> P r"
  using assms
proof (induction xs arbitrary: pre)
  case Nil
  then show ?case by simp
next
  case (Cons x xs)
  show ?case
  proof (cases "P x")
    case False
    then have "filter P xs = pre @ r # post" using Cons.prems by simp
    from Cons.IH [OF this] obtain pre' post' where
      "xs = pre' @ r # post'" "filter P pre' = pre" "filter P post' = post" "P r" by blast
    then show ?thesis
      using False by (intro exI [of _ "x # pre'"] exI [of _ post']) simp
  next
    case True
    then have eq: "x # filter P xs = pre @ r # post" using Cons.prems by simp
    show ?thesis
    proof (cases pre)
      case Nil
      then have "x = r" "filter P xs = post" using eq by simp_all
      then show ?thesis
        using True Nil by (intro exI [of _ "[]"] exI [of _ xs]) simp
    next
      case (Cons y ys)
      then have "x = y" "filter P xs = ys @ r # post" using eq by simp_all
      from Cons.IH [OF this(2)] obtain pre' post' where
        "xs = pre' @ r # post'" "filter P pre' = ys" "filter P post' = post" "P r" by blast
      then show ?thesis
        using True Cons \<open>x = y\<close> by (intro exI [of _ "x # pre'"] exI [of _ post']) simp
    qed
  qed
qed

lemma make_summary_fastest:
  "if (\<exists>r \<in> set results. success r) then
     (\<exists>pre r post. results = pre @ r # post \<and> success r
        \<and> fastestRunner (make_summary results) = Some (runner r)
        \<and> fastestTime (make_summary results) = Some (totalDuration r)
        \<and> (\<forall>x \<in> set pre. success x \<longrightarrow> totalDuration r < totalDuration x)
        \<and> (\<forall>x \<in> set post. success x \<longrightarrow> totalDuration r \<le> totalDuration x))
   else fastestRunner (make_summary results) = None
      \<and> fastestTime (make_summary results) = None"
proof (cases "filter success results")
  case Nil
  then have "\<not> (\<exists>r \<in> set results. success r)" by (simp add: filter_empty_conv)
  then show ?thesis using Nil by (simp add: make_summary_def Let_def)
next
  case (Cons r0 rs)
  let ?f = "\<lambda>mn r. if totalDuration r < totalDuration mn then r else mn"
  let ?m = "foldl ?f r0 rs"
  have ex: "\<exists>r \<in> set results. success r"
    using Cons by (metis filter_empty_conv list.distinct(1))
  have fr: "fastestRunner (make_summary results) = Some (runner ?m)"
    and ft: "fastestTime (make_summary results) = Some (totalDuration ?m)"
    using Cons by (simp_all add: make_summary_def fastest_def Let_def)
  obtain pre post where d: "r0 # rs = pre @ ?m # post"
    and lt: "\<forall>x \<in> set pre. totalDuration ?m < totalDuration x"
    and le: "\<forall>x \<in> set post. totalDuration ?m \<le> totalDuration x"
    using foldl_min_split [of r0 rs] by blast
  have "filter success results = pre @ ?m # post" using Cons d by simp
  from filter_split [OF this] obtain pre' post' where
    r: "results = pre' @ ?m # post'" and fp: "filter success pre' = pre"
    and fq: "filter success post' = post" and sm: "success ?m" by blast
  have "\<forall>x \<in> set pre'. success x \<longrightarrow> totalDuration ?m < totalDuration x"
    using lt fp by auto
  moreover have "\<forall>x \<in> set post'. success x \<longrightarrow> totalDuration ?m \<le> totalDuration x"
    using le fq by auto
  ultimately have "\<exists>pre r post. results = pre @ r # post \<and> success r
        \<and> fastestRunner (make_summary results) = Some (runner r)
        \<and> fastestTime (make_summary results) = Some (totalDuration r)
        \<and> (\<forall>x \<in> set pre. success x \<longrightarrow> totalDuration r < totalDuration x)
        \<and> (\<forall>x \<in> set post. success x \<longrightarrow> totalDuration r \<le> totalDuration x)"
    using r sm fr ft by blast
  then show ?thesis using ex by simp
qed

lemma orchestrator_returns:
  assumes "runMultiRunnerBenchmarkWith exec app prmpt options env w = Inr (md, w')"
  shows "\<exists>results. runners md = map publish results \<and> summary md = make_summary results"
  using assms
  by (fastforce simp: runMultiRunnerBenchmarkWith_def Let_def split: sum.splits option.splits)

lemma make_summary_publish: "make_summary (map publish results) = make_summary results"
proof -
  have s: "filter success (map publish results) = map publish (filter success results)"
    by (induction results) (simp_all add: publish_keeps)
  have n: "filter (\<lambda>r. \<not> success r) (map publish results)
      = map publish (filter (\<lambda>r. \<not> success r) results)"
    by (induction results) (simp_all add: publish_keeps)
  have f: "foldl (\<lambda>mn r. if totalDuration r < totalDuration mn then r else mn) (publish r0)
        (map publish rs)
      = publish (foldl (\<lambda>mn r. if totalDuration r < totalDuration mn then r else mn) r0 rs)"
    for r0 rs
    by (induction rs arbitrary: r0) (simp_all add: publish_keeps)
  show ?thesis
    unfolding make_summary_def Let_def s n
    by (cases "filter success results") (simp_all add: fastest_def f publish_keeps)
qed

text \<open>
  Claim C2. For every invocation that returns: if at least one runner result has
  \<^verbatim>\<open>success == true\<close>, then \<^verbatim>\<open>fastestRunner\<close> and \<^verbatim>\<open>fastestTime\<close> are the runner
  id and the total duration of a successful result that is strictly faster than every
  successful result before it and at least as fast as every successful result after
  it (the minimum, ties going to the first in iteration order); if no runner
  succeeded, both are null.
\<close>

theorem summary_fastest_runner:
  assumes "runMultiRunnerBenchmarkWith exec app prmpt options env w = Inr (md, w')"
  shows "if (\<exists>r \<in> set (runners md). success r) then
     (\<exists>pre r post. runners md = pre @ r # post \<and> success r
        \<and> fastestRunner (summary md) = Some (runner r)
        \<and> fastestTime (summary md) = Some (totalDuration r)
        \<and> (\<forall>x \<in> set pre. success x \<longrightarrow> totalDuration r < totalDuration x)
        \<and> (\<forall>x \<in> set post. success x \<longrightarrow> totalDuration r \<le> totalDuration x))
   else fastestRunner (summary md) = None \<and> fastestTime (summary md) = None"
proof -
  obtain results where "runners md = map publish results" "summary md = make_summary results"
    using orchestrator_returns [OF assms] by blast
  then have "summary md = make_summary (runners md)"
    by (simp add: make_summary_publish)
  then show ?thesis
    using make_summary_fastest [of "runners md"] by simp
qed

theorem summary_fastest_runner_witness:
  "\<exists>md w'. runMultiRunnerBenchmarkWith runSingleRunner ''todo-app'' ''todo'' no_options bench_two
        w_start = Inr (md, w')
     \<and> map runner (runners md) = [''sigrid'', ''claude'']
     \<and> map success (runners md) = [True, True]
     \<and> map totalDuration (runners md) = [71240, 62240]
     \<and> fastestRunner (summary md) = Some ''claude'' \<and> fastestTime (summary md) = Some 62240
     \<and> (\<exists>pre r post. runners md = pre @ r # post \<and> success r
          \<and> fastestRunner (summary md) = Some (runner r)
          \<and> fastestTime (summary md) = Some (totalDuration r)
          \<and> (\<forall>x \<in> set pre. success x \<longrightarrow> totalDuration r < totalDuration x)
          \<and> (\<forall>x \<in> set post. success x \<longrightarrow> totalDuration r \<le> totalDuration x))"
proof -
  let ?run = "runMultiRunnerBenchmarkWith runSingleRunner ''todo-app'' ''todo'' no_options
      bench_two w_start"
  have ev: "map_sum id (\<lambda>(md, w'). (map runner (runners md), map success (runners md),
        map totalDuration (runners md), fastestRunner (summary md), fastestTime (summary md))) ?run
      = Inr ([''sigrid'', ''claude''], [True, True], [71240, 62240], Some ''claude'', Some 62240)"
    by (simp add: bench_defs run_defs localMatch_ready_line)
  then obtain md w' where run: "?run = Inr (md, w')"
    by (cases ?run) auto
  have facts: "map runner (runners md) = [''sigrid'', ''claude'']"
    "map success (runners md) = [True, True]"
    "map totalDuration (runners md) = [71240, 62240]"
    "fastestRunner (summary md) = Some ''claude''" "fastestTime (summary md) = Some 62240"
    using ev run by simp_all
  have "\<exists>r \<in> set (runners md). success r"
    using facts(2) by (cases "runners md") auto
  then show ?thesis
    using run facts summary_fastest_runner [OF run] by simp
qed


end
